theory Spec2Isabelle
  imports Complex_Main
begin

section \<open>Strings and paths\<close>

text \<open>
  Python strings are modelled as byte strings (\<open>char list\<close>) in UTF-8. The literals of the
  source that are written in Chinese are spelled out as their UTF-8 bytes. Paths follow the
  POSIX conventions of \<open>os.path\<close> (separator \<open>/\<close>, extension separator \<open>.\<close>).
\<close>

definition lower_char :: "char \<Rightarrow> char" where
  "lower_char c =
     (if 65 \<le> (of_char c :: nat) \<and> (of_char c :: nat) \<le> 90
      then char_of ((of_char c :: nat) + 32) else c)"

definition upper_char :: "char \<Rightarrow> char" where
  "upper_char c =
     (if 97 \<le> (of_char c :: nat) \<and> (of_char c :: nat) \<le> 122
      then char_of ((of_char c :: nat) - 32) else c)"

definition lower :: "string \<Rightarrow> string" where
  "lower s = map lower_char s"

definition upper :: "string \<Rightarrow> string" where
  "upper s = map upper_char s"

text \<open>\<open>str.rfind\<close> for a single character: the last index holding it, or \<open>-1\<close>.\<close>

fun rfind_from :: "char \<Rightarrow> string \<Rightarrow> int \<Rightarrow> int \<Rightarrow> int" where
  "rfind_from c [] i found = found"
| "rfind_from c (x # xs) i found = rfind_from c xs (i + 1) (if x = c then i else found)"

definition rfind :: "string \<Rightarrow> char \<Rightarrow> int" where
  "rfind p c = rfind_from c p 0 (-1)"

text \<open>
  \<open>os.path.splitext\<close> (\<open>genericpath._splitext\<close>): the extension starts at the last dot of the
  last path component, unless that component has only dots before it.
\<close>

definition splitext :: "string \<Rightarrow> string \<times> string" where
  "splitext p =
     (let sepIndex = rfind p (CHR ''/'');
          dotIndex = rfind p (CHR ''.'')
      in if dotIndex > sepIndex \<and>
            list_ex (\<lambda>c. c \<noteq> CHR ''.'')
              (take (nat (dotIndex - (sepIndex + 1))) (drop (nat (sepIndex + 1)) p))
         then (take (nat dotIndex) p, drop (nat dotIndex) p)
         else (p, []))"

definition basename :: "string \<Rightarrow> string" where
  "basename p = drop (nat (rfind p (CHR ''/'') + 1)) p"

section \<open>Double-precision arithmetic\<close>

text \<open>
  Python's \<open>float\<close> is IEEE 754 binary64. A finite double is modelled by the rational it
  denotes, and every floating-point operation by the exact operation followed by \<open>fl\<close>, the
  rounding to the nearest double with ties to the even significand: a value is scaled by a
  power of two into \<open>[2^52, 2^53)\<close> (at most 1074 doublings, which is the fixed spacing of
  the subnormal numbers), rounded to an integer and scaled back. The exponent
  of \<open>fl\<close> is unbounded above: a result of magnitude \<open>2^1024\<close> or more stands for an overflow,
  which the size utilities, the only place where the operands are not bounded by the
  program, test for (\<open>overflows\<close>).
\<close>

definition round_half_even :: "rat \<Rightarrow> int" where
  "round_half_even y =
     (let f = \<lfloor>y\<rfloor>; d = y - of_int f
      in if d < 1/2 then f else if d > 1/2 then f + 1 else if even f then f else f + 1)"

primrec find_up :: "nat \<Rightarrow> rat \<Rightarrow> nat" where
  "find_up 0 x = 0"
| "find_up (Suc n) x = (if 2 ^ 52 \<le> x then 0 else Suc (find_up n (2 * x)))"

primrec find_down :: "nat \<Rightarrow> rat \<Rightarrow> nat" where
  "find_down 0 x = 0"
| "find_down (Suc n) x = (if x < 2 ^ 53 then 0 else Suc (find_down n (x / 2)))"

definition fl_pos :: "rat \<Rightarrow> rat" where
  "fl_pos x =
     (if x < 2 ^ 53
      then (let p = find_up 1074 x in of_int (round_half_even (x * 2 ^ p)) / 2 ^ p)
      else (let q = find_down 971 x in of_int (round_half_even (x / 2 ^ q)) * 2 ^ q))"

definition fl :: "rat \<Rightarrow> rat" where
  "fl x = (if x = 0 then 0 else if x < 0 then - fl_pos (- x) else fl_pos x)"

text \<open>\<open>int(x)\<close> on a float truncates toward zero.\<close>

definition trunc :: "rat \<Rightarrow> int" where
  "trunc x = (if x < 0 then - \<lfloor>- x\<rfloor> else \<lfloor>x\<rfloor>)"

text \<open>Python's \<open>round\<close> on a float rounds to the nearest integer, ties to even.\<close>

definition py_round :: "rat \<Rightarrow> int" where
  "py_round x = round_half_even x"

section \<open>Callbacks and return values\<close>

text \<open>
  A callback is a function of the caller: the model sees its arguments and whether the call
  returns or raises. A Python return value that may be \<open>None\<close> or a boolean is a
  \<open>py_value\<close>.
\<close>

datatype cb_result = Returns | Raises

datatype py_value = PyNone | PyBool bool

text \<open>
  The abort flag of a background task is set by another thread, and the task reads it at the
  head of every iteration of its loop: \<open>aborts i\<close> is what the read at the head of iteration
  \<open>i\<close> returns. \<open>processed aborts i n\<close> is the number of iterations that a loop makes which
  is at iteration \<open>i\<close> with \<open>n\<close> items ahead and which no exception leaves: it stops at the
  first read that returns \<open>True\<close>.
\<close>

fun processed :: "(nat \<Rightarrow> bool) \<Rightarrow> nat \<Rightarrow> nat \<Rightarrow> nat" where
  "processed aborts i 0 = 0"
| "processed aborts i (Suc n) = (if aborts i then 0 else Suc (processed aborts (Suc i) n))"

text \<open>\<open>str(n)\<close> for an integer.\<close>

fun str_nat :: "nat \<Rightarrow> string" where
  "str_nat n =
     (if n < 10 then [char_of (48 + n)]
      else str_nat (n div 10) @ [char_of (48 + n mod 10)])"

definition str_int :: "int \<Rightarrow> string" where
  "str_int i = (if i < 0 then CHR ''-'' # str_nat (nat (- i)) else str_nat (nat i))"

section \<open>Scanner: filters and targets (core/scanner.py)\<close>

text \<open>
  A \<open>datetime\<close> is modelled as an integer count of microseconds; \<open>(a - b).days\<close> of a
  \<open>timedelta\<close> is the floor of the difference in days.
\<close>

definition timedelta_days :: "int \<Rightarrow> int \<Rightarrow> int" where
  "timedelta_days a b = (a - b) div 86400000000"

record ScanFilter =
  sf_min_size :: int
  sf_max_size :: "int option"
  sf_min_age_days :: "int option"
  sf_extensions :: "string list"
  sf_exclude_exts :: "string list"

text \<open>Python truth value of an \<open>Optional[int]\<close>: \<open>None\<close> and \<open>0\<close> are false.\<close>

definition truthy :: "int option \<Rightarrow> bool" where
  "truthy v = (case v of None \<Rightarrow> False | Some n \<Rightarrow> n \<noteq> 0)"

text \<open>\<open>ScanFilter.match_file\<close>; \<open>now\<close> is the value \<open>datetime.now()\<close> returns.\<close>

definition match_file :: "int \<Rightarrow> ScanFilter \<Rightarrow> string \<Rightarrow> int \<Rightarrow> int \<Rightarrow> bool" where
  "match_file now f file_path file_size mod_time =
     (if sf_min_size f > 0 \<and> file_size < sf_min_size f then False
      else if truthy (sf_max_size f) \<and> file_size > the (sf_max_size f) then False
      else if truthy (sf_min_age_days f) \<and>
              timedelta_days now mod_time < the (sf_min_age_days f) then False
      else if sf_extensions f \<noteq> [] \<or> sf_exclude_exts f \<noteq> [] then
        (let ext = lower (snd (splitext file_path))
         in if sf_extensions f \<noteq> [] \<and> \<not> List.member (sf_extensions f) ext then False
            else if sf_exclude_exts f \<noteq> [] \<and> List.member (sf_exclude_exts f) ext then False
            else True)
      else True)"

record ScanTarget =
  st_name :: string
  st_path :: string
  st_description :: string
  st_is_system :: bool
  st_enabled :: bool
  st_patterns :: "string list"
  st_exclude_patterns :: "string list"
  st_min_size :: int
  st_max_size :: "int option"
  st_min_age :: "int option"
  st_recursive :: bool

datatype py_error = IndexError | ValueError | OverflowError

text \<open>
  \<open>del xs[i]\<close> on a Python list: a negative index counts from the end, an index out of
  range raises \<open>IndexError\<close>.
\<close>

definition py_del :: "'a list \<Rightarrow> int \<Rightarrow> py_error + 'a list" where
  "py_del xs i =
     (let n = int (length xs); j = (if i < 0 then n + i else i)
      in if 0 \<le> j \<and> j < n then Inr (take (nat j) xs @ drop (Suc (nat j)) xs)
         else Inl IndexError)"

text \<open>\<open>Scanner.remove_target\<close> on the target list of the scanner.\<close>

definition remove_target :: "ScanTarget list \<Rightarrow> int \<Rightarrow> py_error + ScanTarget list" where
  "remove_target targets target_index =
     (if 0 \<le> target_index \<and> target_index < int (length targets)
      then py_del targets target_index
      else Inr targets)"

section \<open>Analyzer: results (core/analyzer.py)\<close>

datatype DiskItem =
  DiskItem (di_path: string) (di_name: string) (di_is_dir: bool) (di_size: int)
    (di_children: "DiskItem list")

record AnalyzeResult =
  root_item :: "DiskItem option"
  file_count :: int
  dir_count :: int
  total_size :: int
  file_types :: "string \<rightharpoonup> int"
  largest_files :: "(string \<times> int) list"
  largest_dirs :: "(string \<times> int) list"

definition new_AnalyzeResult :: AnalyzeResult where
  "new_AnalyzeResult =
     \<lparr>root_item = None, file_count = 0, dir_count = 0, total_size = 0,
      file_types = Map.empty, largest_files = [], largest_dirs = []\<rparr>"

text \<open>
  \<open>list.sort(key=lambda x: x[1], reverse=True)\<close> is a stable sort into descending order of
  the size; \<open>sort_key\<close> on the negated size is the same stable order.
\<close>

definition sort_by_size_desc :: "(string \<times> int) list \<Rightarrow> (string \<times> int) list" where
  "sort_by_size_desc xs = sort_key (\<lambda>x. - snd x) xs"

definition update_largest :: "nat \<Rightarrow> (string \<times> int) list \<Rightarrow> string \<Rightarrow> int \<Rightarrow> (string \<times> int) list" where
  "update_largest max_count xs path sz =
     (let ys = sort_by_size_desc (xs @ [(path, sz)])
      in if length ys > max_count then take max_count ys else ys)"

definition update_largest_files :: "AnalyzeResult \<Rightarrow> string \<Rightarrow> int \<Rightarrow> AnalyzeResult" where
  "update_largest_files r path sz = r\<lparr>largest_files := update_largest 20 (largest_files r) path sz\<rparr>"

definition update_largest_dirs :: "AnalyzeResult \<Rightarrow> string \<Rightarrow> int \<Rightarrow> AnalyzeResult" where
  "update_largest_dirs r path sz = r\<lparr>largest_dirs := update_largest 20 (largest_dirs r) path sz\<rparr>"

text \<open>The key used for files without an extension (a Chinese literal in the source).\<close>

definition no_extension_key :: string where
  "no_extension_key =
     [CHR 0x28, CHR 0xE6, CHR 0x97, CHR 0xA0, CHR 0xE6, CHR 0x89, CHR 0xA9, CHR 0xE5,
      CHR 0xB1, CHR 0x95, CHR 0xE5, CHR 0x90, CHR 0x8D, CHR 0x29]"

definition add_file :: "AnalyzeResult \<Rightarrow> string \<Rightarrow> int \<Rightarrow> AnalyzeResult" where
  "add_file r path sz =
     (let ext0 = snd (splitext path);
          ext = (if ext0 \<noteq> [] then lower ext0 else no_extension_key);
          old = (case file_types r ext of None \<Rightarrow> 0 | Some v \<Rightarrow> v)
      in update_largest_files
           (r\<lparr>file_count := file_count r + 1,
              total_size := total_size r + sz,
              file_types := (file_types r)(ext \<mapsto> old + sz)\<rparr>)
           path sz)"

definition add_dir :: "AnalyzeResult \<Rightarrow> string \<Rightarrow> int \<Rightarrow> AnalyzeResult" where
  "add_dir r path sz = update_largest_dirs (r\<lparr>dir_count := dir_count r + 1\<rparr>) path sz"

datatype result_update = AddFile string int | AddDir string int

fun apply_update :: "AnalyzeResult \<Rightarrow> result_update \<Rightarrow> AnalyzeResult" where
  "apply_update r (AddFile p s) = add_file r p s"
| "apply_update r (AddDir p s) = add_dir r p s"

definition sorted_desc :: "(string \<times> int) list \<Rightarrow> bool" where
  "sorted_desc xs = sorted_wrt (\<lambda>a b. snd a \<ge> snd b) xs"

text \<open>The invariant of the two bounded lists.\<close>

definition largest_ok :: "AnalyzeResult \<Rightarrow> bool" where
  "largest_ok r =
     (length (largest_files r) \<le> 20 \<and> sorted_desc (largest_files r) \<and>
      length (largest_dirs r) \<le> 20 \<and> sorted_desc (largest_dirs r))"

section \<open>Cleaner (core/cleaner.py)\<close>

text \<open>
  The file system is a map from the canonical paths that exist to their kind; \<open>resolve\<close>
  gives the canonical path that the operating system's lookup makes of a path as the
  program spells it, so that two spellings of one file are one entry. The primitives the
  cleaner calls (\<open>send2trash\<close>, \<open>os.remove\<close>, \<open>shutil.rmtree\<close>, \<open>os.rename\<close>, the
  overwrite passes of the secure deletion) are the environment's: \<open>os_env\<close> says for each
  path whether the primitive raises there, and with which message (\<open>str(e)\<close>). The bytes a
  file holds are not modelled. A primitive that raises leaves the file system as it was.
  \<open>clock_now i\<close> and \<open>epoch_seconds i\<close> are what \<open>datetime.now()\<close> and \<open>time.time()\<close> return
  when they are called in iteration \<open>i\<close> of the loop over the tasks.
\<close>

datatype fs_kind = RegularFile | Directory

type_synonym filesystem = "string \<rightharpoonup> fs_kind"

record os_env =
  resolve :: "string \<Rightarrow> string"
  clock_now :: "nat \<Rightarrow> int"
  epoch_seconds :: "nat \<Rightarrow> int"
  trash_error :: "string \<Rightarrow> string option"
  remove_error :: "string \<Rightarrow> string option"
  rmtree_error :: "string \<Rightarrow> string option"
  rename_error :: "string \<Rightarrow> string option"
  overwrite_error :: "string \<Rightarrow> string option"

definition path_exists :: "os_env \<Rightarrow> filesystem \<Rightarrow> string \<Rightarrow> bool" where
  "path_exists env fs p = (fs (resolve env p) \<noteq> None)"

definition isdir :: "os_env \<Rightarrow> filesystem \<Rightarrow> string \<Rightarrow> bool" where
  "isdir env fs p = (fs (resolve env p) = Some Directory)"

definition is_under :: "string \<Rightarrow> string \<Rightarrow> bool" where
  "is_under d q = (take (length d + 1) q = d @ ''/'' \<and> length d + 1 < length q)"

definition fs_remove_tree :: "filesystem \<Rightarrow> string \<Rightarrow> filesystem" where
  "fs_remove_tree fs p = (\<lambda>q. if q = p \<or> is_under p q then None else fs q)"

definition fs_move :: "filesystem \<Rightarrow> string \<Rightarrow> string \<Rightarrow> filesystem" where
  "fs_move fs p new_path =
     (\<lambda>q. if q = new_path then fs p
          else if is_under new_path q then fs (p @ drop (length new_path) q)
          else if q = p \<or> is_under p q then None
          else fs q)"

definition os_remove :: "os_env \<Rightarrow> filesystem \<Rightarrow> string \<Rightarrow> string + filesystem" where
  "os_remove env fs p =
     (case remove_error env p of
        Some msg \<Rightarrow> Inl msg
      | None \<Rightarrow> Inr (fs(resolve env p := None)))"

definition rmtree :: "os_env \<Rightarrow> filesystem \<Rightarrow> string \<Rightarrow> string + filesystem" where
  "rmtree env fs p =
     (case rmtree_error env p of
        Some msg \<Rightarrow> Inl msg
      | None \<Rightarrow> Inr (fs_remove_tree fs (resolve env p)))"

definition send2trash :: "os_env \<Rightarrow> filesystem \<Rightarrow> string \<Rightarrow> string + filesystem" where
  "send2trash env fs p =
     (case trash_error env p of
        Some msg \<Rightarrow> Inl msg
      | None \<Rightarrow> Inr (fs_remove_tree fs (resolve env p)))"

definition os_rename :: "os_env \<Rightarrow> filesystem \<Rightarrow> string \<Rightarrow> string \<Rightarrow> string + filesystem" where
  "os_rename env fs p new_path =
     (case rename_error env p of
        Some msg \<Rightarrow> Inl msg
      | None \<Rightarrow> Inr (fs_move fs (resolve env p) (resolve env new_path)))"

record CleanTask =
  ct_file_path :: string
  ct_metadata :: "(string \<times> string) list"
  ct_size :: int

text \<open>\<open>CleanTask.__init__\<close>: the size is read when the task is made, 0 if that fails.\<close>

definition new_CleanTask :: "(string \<Rightarrow> int option) \<Rightarrow> string \<Rightarrow> (string \<times> string) list \<Rightarrow> CleanTask" where
  "new_CleanTask getsize file_path metadata =
     \<lparr>ct_file_path = file_path, ct_metadata = metadata,
      ct_size = (case getsize file_path of Some n \<Rightarrow> n | None \<Rightarrow> 0)\<rparr>"

record CleanResult =
  cr_file_path :: string
  cr_size :: int
  cr_metadata :: "(string \<times> string) list"
  cr_success :: bool
  cr_error :: "string option"
  cr_timestamp :: int

text \<open>
  \<open>CleanResult.__init__\<close>; \<open>now\<close> is what \<open>datetime.now()\<close> returns when the result is made.
\<close>

definition new_CleanResult :: "int \<Rightarrow> CleanTask \<Rightarrow> bool \<Rightarrow> string option \<Rightarrow> CleanResult" where
  "new_CleanResult now task success err =
     \<lparr>cr_file_path = ct_file_path task, cr_size = ct_size task,
      cr_metadata = ct_metadata task, cr_success = success, cr_error = err,
      cr_timestamp = now\<rparr>"

datatype CleanMethod = RECYCLE_BIN | PERMANENT | RENAME | SECURE

text \<open>The message of a task whose file is missing (a Chinese literal: "the file does not exist").\<close>

definition msg_file_not_found :: string where
  "msg_file_not_found =
     [CHR 0xE6, CHR 0x96, CHR 0x87, CHR 0xE4, CHR 0xBB, CHR 0xB6, CHR 0xE4, CHR 0xB8,
      CHR 0x8D, CHR 0xE5, CHR 0xAD, CHR 0x98, CHR 0xE5, CHR 0x9C, CHR 0xA8]"

text \<open>
  \<open>Cleaner._secure_delete\<close>: three overwrite passes and \<open>os.remove\<close> inside a \<open>try\<close>; on any
  exception the handler calls \<open>os.remove\<close> again, outside any handler.
\<close>

definition secure_delete :: "os_env \<Rightarrow> filesystem \<Rightarrow> string \<Rightarrow> string + filesystem" where
  "secure_delete env fs p =
     (case overwrite_error env p of
        Some msg \<Rightarrow> os_remove env fs p
      | None \<Rightarrow> (case os_remove env fs p of
                   Inr fs' \<Rightarrow> Inr fs'
                 | Inl msg \<Rightarrow> os_remove env fs p))"

text \<open>
  The body of the \<open>try\<close> of \<open>Cleaner._clean_file\<close> after the existence check, in iteration
  \<open>i\<close> of the loop.
\<close>

definition clean_op :: "os_env \<Rightarrow> nat \<Rightarrow> filesystem \<Rightarrow> string \<Rightarrow> CleanMethod \<Rightarrow> string + filesystem" where
  "clean_op env i fs file_path method =
     (case method of
        RECYCLE_BIN \<Rightarrow> send2trash env fs file_path
      | PERMANENT \<Rightarrow>
          (if isdir env fs file_path then rmtree env fs file_path
           else os_remove env fs file_path)
      | RENAME \<Rightarrow>
          (let new_path = file_path @ ''.bak'';
               new_path' = (if path_exists env fs new_path
                            then file_path @ ''.'' @ str_int (epoch_seconds env i) @ ''.bak''
                            else new_path)
           in os_rename env fs file_path new_path')
      | SECURE \<Rightarrow>
          (if \<not> isdir env fs file_path then secure_delete env fs file_path
           else rmtree env fs file_path))"

text \<open>
  \<open>Cleaner._clean_file\<close>, called in iteration \<open>i\<close>: the result and the file system it leaves.
\<close>

definition clean_file :: "os_env \<Rightarrow> nat \<Rightarrow> filesystem \<Rightarrow> CleanTask \<Rightarrow> CleanMethod \<Rightarrow> CleanResult \<times> filesystem" where
  "clean_file env i fs task method =
     (if \<not> path_exists env fs (ct_file_path task)
      then (new_CleanResult (clock_now env i) task False (Some msg_file_not_found), fs)
      else (case clean_op env i fs (ct_file_path task) method of
              Inl msg \<Rightarrow> (new_CleanResult (clock_now env i) task False (Some msg), fs)
            | Inr fs' \<Rightarrow> (new_CleanResult (clock_now env i) task True None, fs')))"

text \<open>
  The results of \<open>_clean_file\<close> on the tasks of a list, one after the other on the file
  system the one before has left, the first of them in iteration \<open>i\<close>.
\<close>

fun clean_results :: "os_env \<Rightarrow> CleanMethod \<Rightarrow> nat \<Rightarrow> filesystem \<Rightarrow> CleanTask list \<Rightarrow> CleanResult list" where
  "clean_results env method i fs [] = []"
| "clean_results env method i fs (task # tasks) =
     fst (clean_file env i fs task method) #
     clean_results env method (Suc i) (snd (clean_file env i fs task method)) tasks"

text \<open>
  \<open>percent = int((current / total) * 100) if total > 0 else 100\<close>: a true division and a
  multiplication in double precision, then truncation.
\<close>

definition clean_percent :: "int \<Rightarrow> int \<Rightarrow> int" where
  "clean_percent current tot =
     (if tot > 0 then trunc (fl (fl (of_int current / of_int tot) * 100)) else 100)"

text \<open>
  What a run of the background task does that the outside can see, in order: the calls of
  the progress callback, the tasks handed to \<open>_clean_file\<close>, the call of the completion
  callback.
\<close>

datatype clean_event =
  CleanProgress int int int
| CleanFile string
| CleanComplete "CleanResult list"

record Cleaner =
  cl_method :: CleanMethod
  cl_running :: bool
  cl_abort_flag :: bool

text \<open>
  The loop of \<open>Cleaner._clean_thread\<close>, at iteration \<open>i\<close>. The first
  component of the result says whether an exception left the loop: the only call in it that
  is outside a \<open>try\<close> is the progress callback.
\<close>

fun clean_loop ::
  "os_env \<Rightarrow> (nat \<Rightarrow> bool) \<Rightarrow> (int \<Rightarrow> int \<Rightarrow> int \<Rightarrow> cb_result) option \<Rightarrow> CleanMethod \<Rightarrow> int \<Rightarrow>
   CleanTask list \<Rightarrow> nat \<Rightarrow> filesystem \<Rightarrow> CleanResult list \<Rightarrow> clean_event list \<Rightarrow>
   bool \<times> filesystem \<times> CleanResult list \<times> clean_event list" where
  "clean_loop env aborts pcb method tot [] i fs results trace = (False, fs, results, trace)"
| "clean_loop env aborts pcb method tot (task # tasks) i fs results trace =
     (if aborts i then (False, fs, results, trace)
      else
        (let current = int i + 1;
             percent = clean_percent current tot;
             trace1 = (case pcb of None \<Rightarrow> trace
                       | Some cb \<Rightarrow> trace @ [CleanProgress current tot percent]);
             raised = (case pcb of None \<Rightarrow> False
                       | Some cb \<Rightarrow> cb current tot percent = Raises)
         in if raised then (True, fs, results, trace1)
            else
              (let (result, fs') = clean_file env i fs task method
               in clean_loop env aborts pcb method tot tasks (Suc i) fs'
                    (results @ [result]) (trace1 @ [CleanFile (ct_file_path task)]))))"

text \<open>
  \<open>Cleaner._clean_thread\<close>: the loop, then \<open>running = False\<close> and the completion callback.
  There is no \<open>try\<close> around the loop: when an exception leaves it, the thread ends there.
\<close>

definition clean_thread ::
  "os_env \<Rightarrow> (nat \<Rightarrow> bool) \<Rightarrow> (int \<Rightarrow> int \<Rightarrow> int \<Rightarrow> cb_result) option \<Rightarrow>
   (CleanResult list \<Rightarrow> cb_result) option \<Rightarrow> Cleaner \<Rightarrow> filesystem \<Rightarrow> CleanTask list \<Rightarrow>
   CleanMethod \<Rightarrow> Cleaner \<times> filesystem \<times> clean_event list" where
  "clean_thread env aborts pcb ccb c fs tasks method =
     (let tot = int (length tasks);
          (raised, fs', results, trace) = clean_loop env aborts pcb method tot tasks 0 fs [] []
      in if raised then (c, fs', trace)
         else (c\<lparr>cl_running := False\<rparr>, fs',
               (case ccb of None \<Rightarrow> trace | Some cb \<Rightarrow> trace @ [CleanComplete results])))"

text \<open>
  \<open>Cleaner.clean\<close>: the value returned, the cleaner, and the arguments of the thread it
  starts, if any.
\<close>

definition clean ::
  "Cleaner \<Rightarrow> CleanTask list \<Rightarrow> CleanMethod option \<Rightarrow>
   py_value \<times> Cleaner \<times> (CleanTask list \<times> CleanMethod) option" where
  "clean c tasks method =
     (if cl_running c then (PyBool False, c, None)
      else
        (let clean_method = (case method of Some m \<Rightarrow> m | None \<Rightarrow> cl_method c)
         in (PyBool True, c\<lparr>cl_abort_flag := False, cl_running := True\<rparr>,
             Some (tasks, clean_method))))"

definition abort_clean :: "Cleaner \<Rightarrow> Cleaner" where
  "abort_clean c = (if cl_running c then c\<lparr>cl_abort_flag := True\<rparr> else c)"

section \<open>Scanner: the background scan (core/scanner.py)\<close>

text \<open>
  The walk of one target (\<open>Scanner._scan_target\<close>, which catches every exception of the walk
  and always returns a result) is a parameter \<open>walk\<close> of the model; the type of its results
  is left open.
\<close>

record 'r Scanner =
  sc_targets :: "ScanTarget list"
  sc_results :: "'r list"
  sc_running :: bool
  sc_abort_flag :: bool

text \<open>
  \<open>int((current - 0.5) * 100 / total_targets)\<close> and \<open>int(current * 100 / total_targets)\<close>:
  the first is computed in double precision throughout, the second is a true division of
  two integers; both are truncated.
\<close>

definition scan_percent_before :: "int \<Rightarrow> int \<Rightarrow> int" where
  "scan_percent_before current tot =
     trunc (fl (fl (fl (of_int current - 1 / 2) * 100) / of_int tot))"

definition scan_percent_after :: "int \<Rightarrow> int \<Rightarrow> int" where
  "scan_percent_after current tot = trunc (fl (of_int (current * 100) / of_int tot))"

text \<open>
  What a run of the background task does that the outside can see, in order: the calls of
  the progress callback, the targets walked, the call of the completion callback.
\<close>

datatype 'r scan_event =
  ScanProgress int int int
| ScanWalk string
| ScanComplete "'r list"

text \<open>
  The loop of \<open>Scanner._scan_thread\<close>; \<open>n_done\<close> counts the iterations made, so the source's
  \<open>current\<close> is \<open>n_done + 1\<close> inside the body. The first component of the result says whether an
  exception left the loop: the calls of the progress callback are outside any \<open>try\<close>.
\<close>

fun scan_loop ::
  "(ScanTarget \<Rightarrow> 'r) \<Rightarrow> (nat \<Rightarrow> bool) \<Rightarrow> (int \<Rightarrow> int \<Rightarrow> int \<Rightarrow> cb_result) option \<Rightarrow> int \<Rightarrow>
   ScanTarget list \<Rightarrow> nat \<Rightarrow> 'r list \<Rightarrow> 'r scan_event list \<Rightarrow>
   bool \<times> 'r list \<times> 'r scan_event list" where
  "scan_loop walk aborts pcb tot [] n_done results trace = (False, results, trace)"
| "scan_loop walk aborts pcb tot (target # targets) n_done results trace =
     (if aborts n_done then (False, results, trace)
      else
        (let current = int n_done + 1;
             p1 = scan_percent_before current tot;
             trace1 = (case pcb of None \<Rightarrow> trace
                       | Some cb \<Rightarrow> trace @ [ScanProgress (current - 1) tot p1]);
             raised1 = (case pcb of None \<Rightarrow> False
                        | Some cb \<Rightarrow> cb (current - 1) tot p1 = Raises)
         in if raised1 then (True, results, trace1)
            else
              (let results' = results @ [walk target];
                   trace2 = trace1 @ [ScanWalk (st_name target)];
                   p2 = scan_percent_after current tot;
                   trace3 = (case pcb of None \<Rightarrow> trace2
                             | Some cb \<Rightarrow> trace2 @ [ScanProgress current tot p2]);
                   raised2 = (case pcb of None \<Rightarrow> False
                              | Some cb \<Rightarrow> cb current tot p2 = Raises)
               in if raised2 then (True, results', trace3)
                  else scan_loop walk aborts pcb tot targets (Suc n_done) results' trace3)))"

text \<open>
  \<open>Scanner._scan_thread\<close>: the loop over the enabled targets, then \<open>running = False\<close> and
  the completion callback. There is no \<open>try\<close> around the loop: when an exception leaves it,
  the thread ends there, with \<open>running\<close> still set.
\<close>

definition scan_thread ::
  "(ScanTarget \<Rightarrow> 'r) \<Rightarrow> (nat \<Rightarrow> bool) \<Rightarrow> (int \<Rightarrow> int \<Rightarrow> int \<Rightarrow> cb_result) option \<Rightarrow>
   ('r list \<Rightarrow> cb_result) option \<Rightarrow> 'r Scanner \<Rightarrow> 'r Scanner \<times> 'r scan_event list" where
  "scan_thread walk aborts pcb ccb s =
     (let enabled_targets = filter st_enabled (sc_targets s);
          total_targets = int (length enabled_targets);
          (raised, results, trace) =
             scan_loop walk aborts pcb total_targets enabled_targets 0 [] []
      in if raised then (s\<lparr>sc_results := results\<rparr>, trace)
         else (s\<lparr>sc_results := results, sc_running := False\<rparr>,
               (case ccb of None \<Rightarrow> trace | Some cb \<Rightarrow> trace @ [ScanComplete results])))"

text \<open>
  \<open>Scanner.scan\<close>: the value returned, the scanner, and whether a thread was started.
\<close>

definition scan :: "'r Scanner \<Rightarrow> py_value \<times> 'r Scanner \<times> bool" where
  "scan s =
     (if sc_running s then (PyBool False, s, False)
      else (PyBool True, s\<lparr>sc_abort_flag := False, sc_running := True\<rparr>, True))"

definition abort_scan :: "'r Scanner \<Rightarrow> 'r Scanner" where
  "abort_scan s = (if sc_running s then s\<lparr>sc_abort_flag := True\<rparr> else s)"

section \<open>Analyzer: the tree walk (core/analyzer.py)\<close>

text \<open>
  What \<open>os.scandir\<close> finds is a tree of entries: a file with the size \<open>get_file_size\<close>
  returns for it (0 when the size cannot be read), a directory with its own entries and
  with what opening it does (\<open>Denied\<close>: \<open>PermissionError\<close>, \<open>Broken\<close>: another exception),
  an entry that is neither, and an entry whose \<open>is_file()\<close> raises (\<open>True\<close>: a
  \<open>PermissionError\<close>).
\<close>

datatype dir_access = Readable | Denied | Broken

datatype fs_entry =
  FsFile string int
| FsDir string dir_access "fs_entry list"
| FsOther string
| FsRaises string bool

definition join_path :: "string \<Rightarrow> string \<Rightarrow> string" where
  "join_path d n = (if d = [] then n else if last d = CHR ''/'' then d @ n else d @ ''/'' @ n)"

text \<open>\<open>DiskItem.__init__\<close> (the parent link is not modelled: nothing reads it) and \<open>add_child\<close>.\<close>

definition new_DiskItem :: "string \<Rightarrow> string option \<Rightarrow> bool \<Rightarrow> int \<Rightarrow> DiskItem" where
  "new_DiskItem path name is_dir sz =
     DiskItem path
       (case name of
          Some n \<Rightarrow> (if n \<noteq> [] then n else if basename path \<noteq> [] then basename path else path)
        | None \<Rightarrow> (if basename path \<noteq> [] then basename path else path))
       is_dir sz []"

definition add_child :: "DiskItem \<Rightarrow> DiskItem \<Rightarrow> DiskItem" where
  "add_child parent child =
     DiskItem (di_path parent) (di_name parent) (di_is_dir parent) (di_size parent)
       (di_children parent @ [child])"

definition set_size :: "DiskItem \<Rightarrow> int \<Rightarrow> DiskItem" where
  "set_size item sz =
     DiskItem (di_path item) (di_name item) (di_is_dir item) sz (di_children item)"

datatype analyze_event =
  AnalyzeProgress string int int
| AnalyzeComplete AnalyzeResult

text \<open>
  The state the walk threads through: the result, the number of reads of \<open>self.aborted\<close>
  made so far, and the calls of the callbacks. \<open>aborts k\<close> is what the \<open>k\<close>-th read of the
  flag returns.
\<close>

record walk_state =
  ws_result :: AnalyzeResult
  ws_polls :: nat
  ws_trace :: "analyze_event list"

text \<open>
  \<open>Analyzer._update_progress\<close>. An exception of the callback is caught by the handler around
  the entry in \<open>_analyze_directory\<close>, so the walk goes on either way.
\<close>

definition update_progress ::
  "(string \<Rightarrow> int \<Rightarrow> int \<Rightarrow> cb_result) option \<Rightarrow> string \<Rightarrow> walk_state \<Rightarrow> walk_state" where
  "update_progress pcb current_path st =
     (case pcb of
        None \<Rightarrow> st
      | Some cb \<Rightarrow>
          st\<lparr>ws_trace := ws_trace st @
               [AnalyzeProgress current_path (file_count (ws_result st)) (dir_count (ws_result st))]\<rparr>)"

text \<open>
  \<open>Analyzer._analyze_directory\<close> and its loop over the entries. The loop returns whether it
  ran to its end (an abort returns from the whole function, past the update of the size
  and of the result), the parent with the children added, and the size summed so far.
\<close>

fun analyze_directory ::
  "(nat \<Rightarrow> bool) \<Rightarrow> (string \<Rightarrow> int \<Rightarrow> int \<Rightarrow> cb_result) option \<Rightarrow> int option \<Rightarrow> string \<Rightarrow>
   dir_access \<Rightarrow> fs_entry list \<Rightarrow> DiskItem \<Rightarrow> int \<Rightarrow> walk_state \<Rightarrow> DiskItem \<times> walk_state"
and analyze_items ::
  "(nat \<Rightarrow> bool) \<Rightarrow> (string \<Rightarrow> int \<Rightarrow> int \<Rightarrow> cb_result) option \<Rightarrow> int option \<Rightarrow> string \<Rightarrow>
   fs_entry list \<Rightarrow> DiskItem \<Rightarrow> int \<Rightarrow> int \<Rightarrow> walk_state \<Rightarrow>
   bool \<times> DiskItem \<times> int \<times> walk_state" where
  "analyze_directory aborts pcb max_depth directory access entries parent_item current_depth st =
     (let st1 = st\<lparr>ws_polls := Suc (ws_polls st)\<rparr>
      in if aborts (ws_polls st) then (parent_item, st1)
         else if (case max_depth of None \<Rightarrow> False | Some m \<Rightarrow> current_depth > m)
         then (parent_item, st1)
         else
           (case access of
              Denied \<Rightarrow> (parent_item, st1)
            | Broken \<Rightarrow> (parent_item, st1)
            | Readable \<Rightarrow>
                (case analyze_items aborts pcb max_depth directory entries parent_item
                        current_depth 0 st1 of
                   (finished, parent', dir_size, st2) \<Rightarrow>
                     if finished
                     then (set_size parent' dir_size,
                           st2\<lparr>ws_result := add_dir (ws_result st2) directory dir_size\<rparr>)
                     else (parent', st2))))"
| "analyze_items aborts pcb max_depth directory [] parent_item current_depth dir_size st =
     (True, parent_item, dir_size, st)"
| "analyze_items aborts pcb max_depth directory (FsFile name file_size # items) parent_item
       current_depth dir_size st =
     (let st1 = st\<lparr>ws_polls := Suc (ws_polls st)\<rparr>
      in if aborts (ws_polls st) then (False, parent_item, dir_size, st1)
         else
           (let path = join_path directory name;
                file_item = new_DiskItem path (Some name) False file_size;
                st2 = st1\<lparr>ws_result := add_file (ws_result st1) path file_size\<rparr>;
                st3 = update_progress pcb path st2
            in analyze_items aborts pcb max_depth directory items
                 (add_child parent_item file_item) current_depth (dir_size + file_size) st3))"
| "analyze_items aborts pcb max_depth directory (FsDir name access sub # items) parent_item
       current_depth dir_size st =
     (let st1 = st\<lparr>ws_polls := Suc (ws_polls st)\<rparr>
      in if aborts (ws_polls st) then (False, parent_item, dir_size, st1)
         else
           (case analyze_directory aborts pcb max_depth (join_path directory name) access sub
                   (new_DiskItem (join_path directory name) (Some name) True 0)
                   (current_depth + 1) st1 of
              (dir_item, st2) \<Rightarrow>
                analyze_items aborts pcb max_depth directory items
                  (add_child parent_item dir_item) current_depth
                  (dir_size + di_size dir_item) st2))"
| "analyze_items aborts pcb max_depth directory (FsOther name # items) parent_item
       current_depth dir_size st =
     (let st1 = st\<lparr>ws_polls := Suc (ws_polls st)\<rparr>
      in if aborts (ws_polls st) then (False, parent_item, dir_size, st1)
         else analyze_items aborts pcb max_depth directory items parent_item current_depth
                dir_size st1)"
| "analyze_items aborts pcb max_depth directory (FsRaises name perm # items) parent_item
       current_depth dir_size st =
     (let st1 = st\<lparr>ws_polls := Suc (ws_polls st)\<rparr>
      in if aborts (ws_polls st) then (False, parent_item, dir_size, st1)
         else analyze_items aborts pcb max_depth directory items parent_item current_depth
                dir_size st1)"

record Analyzer =
  an_result :: "AnalyzeResult option"
  an_is_analyzing :: bool
  an_aborted :: bool
  an_progress_callback :: "(string \<Rightarrow> int \<Rightarrow> int \<Rightarrow> cb_result) option"
  an_complete_callback :: "(AnalyzeResult \<Rightarrow> cb_result) option"
  an_threads :: "(string \<times> int option) list"

definition new_Analyzer :: Analyzer where
  "new_Analyzer =
     \<lparr>an_result = None, an_is_analyzing = False, an_aborted = False,
      an_progress_callback = None, an_complete_callback = None, an_threads = []\<rparr>"

text \<open>
  \<open>Analyzer.analyze_disk\<close>: the value returned and the analyzer. The function has no
  \<open>return\<close> with a value, so the caller gets \<open>None\<close> on both paths; \<open>is_analyzing\<close> is not
  set here but by the thread, once it runs. \<open>an_threads\<close> lists the threads started, with
  their arguments; \<open>normalize_path\<close> is \<open>PathUtils.normalize_path\<close>.
\<close>

definition analyze_disk ::
  "(string \<Rightarrow> string) \<Rightarrow> Analyzer \<Rightarrow> string \<Rightarrow> int option \<Rightarrow>
   (string \<Rightarrow> int \<Rightarrow> int \<Rightarrow> cb_result) option \<Rightarrow> (AnalyzeResult \<Rightarrow> cb_result) option \<Rightarrow>
   py_value \<times> Analyzer" where
  "analyze_disk normalize_path a path max_depth progress_callback complete_callback =
     (if an_is_analyzing a then (PyNone, a)
      else (PyNone,
            a\<lparr>an_progress_callback := progress_callback,
              an_complete_callback := complete_callback,
              an_aborted := False,
              an_threads := an_threads a @ [(normalize_path path, max_depth)]\<rparr>))"

text \<open>
  \<open>Analyzer._analyze_thread\<close>; \<open>root_entry\<close> is what is at \<open>path\<close>, if anything. The body is inside
  \<open>try ... finally\<close>: \<open>is_analyzing\<close> is reset and the completion callback is called on
  every way out.
\<close>

definition analyze_thread ::
  "(nat \<Rightarrow> bool) \<Rightarrow> Analyzer \<Rightarrow> string \<Rightarrow> fs_entry option \<Rightarrow> int option \<Rightarrow>
   Analyzer \<times> analyze_event list" where
  "analyze_thread aborts a path root_entry max_depth =
     (let st0 = \<lparr>ws_result = new_AnalyzeResult, ws_polls = 0, ws_trace = []\<rparr>;
          st1 =
            (case root_entry of
               None \<Rightarrow> st0
             | Some (FsDir name access entries) \<Rightarrow>
                 (case analyze_directory aborts (an_progress_callback a) max_depth path access
                         entries (new_DiskItem path None True 0) 0 st0 of
                    (root_di, st) \<Rightarrow>
                      st\<lparr>ws_result := (ws_result st)\<lparr>root_item := Some root_di\<rparr>\<rparr>)
             | Some (FsFile name file_size) \<Rightarrow>
                 st0\<lparr>ws_result :=
                       add_file (new_AnalyzeResult
                                   \<lparr>root_item := Some (new_DiskItem path None False file_size)\<rparr>)
                         path file_size\<rparr>
             | Some (FsOther name) \<Rightarrow>
                 st0\<lparr>ws_result :=
                       add_file (new_AnalyzeResult
                                   \<lparr>root_item := Some (new_DiskItem path None False 0)\<rparr>)
                         path 0\<rparr>
             | Some (FsRaises name perm) \<Rightarrow> st0)
      in (a\<lparr>an_result := Some (ws_result st1), an_is_analyzing := False\<rparr>,
          (case an_complete_callback a of
             None \<Rightarrow> ws_trace st1
           | Some cb \<Rightarrow> ws_trace st1 @ [AnalyzeComplete (ws_result st1)])))"

text \<open>The items of a tree at a given depth below its root (the root is at depth 0).\<close>

fun items_at :: "nat \<Rightarrow> DiskItem \<Rightarrow> DiskItem list" where
  "items_at 0 item = [item]"
| "items_at (Suc k) item = concat (map (items_at k) (di_children item))"

text \<open>
  An item that the walk handles at depth \<open>d\<close> under the bound \<open>m\<close>: beyond the bound it has
  no children, and no size if it is a directory; its children are handled one level down.
\<close>

fun depth_ok :: "int \<Rightarrow> int \<Rightarrow> DiskItem \<Rightarrow> bool" where
  "depth_ok m d (DiskItem p n is_dir sz cs) =
     ((d \<le> m \<or> (cs = [] \<and> (sz = 0 \<or> \<not> is_dir))) \<and> list_all (depth_ok m (d + 1)) cs)"

section \<open>Size utilities (utils/size_utils.py)\<close>

text \<open>
  A Python float that may be infinite or a NaN. \<open>to_float\<close> rounds an exact value to a
  float: a value too large for a double gives an infinity.
\<close>

datatype py_float = FloatVal rat | FloatInf | FloatNan

definition overflows :: "rat \<Rightarrow> bool" where
  "overflows x = (2 ^ 1024 \<le> \<bar>fl x\<bar>)"

definition to_float :: "rat \<Rightarrow> py_float" where
  "to_float x = (if overflows x then FloatInf else FloatVal (fl x))"

text \<open>\<open>float(i)\<close> on an integer raises \<open>OverflowError\<close> when the integer is too large.\<close>

definition float_of_int :: "int \<Rightarrow> py_error + rat" where
  "float_of_int i = (if overflows (of_int i) then Inl OverflowError else Inr (fl (of_int i)))"

text \<open>\<open>int(x)\<close> on a float: \<open>OverflowError\<close> on an infinity, \<open>ValueError\<close> on a NaN.\<close>

fun py_int :: "py_float \<Rightarrow> py_error + int" where
  "py_int (FloatVal x) = Inr (trunc x)"
| "py_int FloatInf = Inl OverflowError"
| "py_int FloatNan = Inl ValueError"

text \<open>The product of a float and a positive integer that is itself a double.\<close>

fun float_mul_int :: "py_float \<Rightarrow> int \<Rightarrow> py_float" where
  "float_mul_int (FloatVal a) u = to_float (a * fl (of_int u))"
| "float_mul_int FloatInf u = FloatInf"
| "float_mul_int FloatNan u = FloatNan"

definition size_units :: "string list" where
  "size_units = [''B'', ''KB'', ''MB'', ''GB'', ''TB'', ''PB'']"

text \<open>
  The loop \<open>while size >= 1024 and unit_index < len(units) - 1\<close> of
  \<open>bytes_to_human_readable\<close>.
\<close>

function scale_size :: "rat \<Rightarrow> nat \<Rightarrow> rat \<times> nat" where
  "scale_size sz unit_index =
     (if 1024 \<le> sz \<and> unit_index < length size_units - 1
      then scale_size (fl (sz / 1024)) (unit_index + 1)
      else (sz, unit_index))"
  by pat_completeness auto

termination
  by (relation "measure (\<lambda>(sz, unit_index). length size_units - 1 - unit_index)") auto

declare scale_size.simps [simp del]

text \<open>
  \<open>'{:.df}'.format(x)\<close> for a float \<open>x \<ge> 0\<close>: the exact value of \<open>x\<close> rounded to \<open>d\<close>
  decimals, ties to even, with \<open>d\<close> digits after the point, and no point when \<open>d = 0\<close>.
\<close>

definition pad_zeros :: "nat \<Rightarrow> string \<Rightarrow> string" where
  "pad_zeros d s = replicate (d - length s) (CHR ''0'') @ s"

definition format_fixed :: "nat \<Rightarrow> rat \<Rightarrow> string" where
  "format_fixed d x =
     (let n = round_half_even (x * 10 ^ d)
      in if d = 0 then str_int n
         else str_int (n div 10 ^ d) @ ''.'' @ pad_zeros d (str_int (n mod 10 ^ d)))"

text \<open>\<open>s.rstrip(cs)\<close>.\<close>

definition rstrip_chars :: "string \<Rightarrow> string \<Rightarrow> string" where
  "rstrip_chars s cs = rev (dropWhile (\<lambda>c. c \<in> set cs) (rev s))"

text \<open>The message for a negative size (a Chinese literal: "unknown size").\<close>

definition msg_unknown_size :: string where
  "msg_unknown_size =
     [CHR 0xE6, CHR 0x9C, CHR 0xAA, CHR 0xE7, CHR 0x9F, CHR 0xA5, CHR 0xE5, CHR 0xA4,
      CHR 0xA7, CHR 0xE5, CHR 0xB0, CHR 0x8F]"

text \<open>
  \<open>SizeUtils.bytes_to_human_readable\<close>. The format string \<open>'{:.df} {}'\<close> is applied to the
  size and the unit; the second \<open>format\<close> of the source acts on a string without braces and
  changes nothing. A precision that is negative or exceeds \<open>INT_MAX\<close> makes \<open>format\<close> raise
  \<open>ValueError\<close>. When the result holds a point, the source strips the zeros and the point at
  its end, which is the unit, and appends the unit once more.
\<close>

definition bytes_to_human_readable :: "int \<Rightarrow> int \<Rightarrow> py_error + string" where
  "bytes_to_human_readable size_in_bytes decimal_places =
     (if size_in_bytes < 0 then Inr msg_unknown_size
      else if size_in_bytes = 0 then Inr ''0 B''
      else case float_of_int size_in_bytes of
             Inl e \<Rightarrow> Inl e
           | Inr sz0 \<Rightarrow>
               (let (sz, unit_index) = scale_size sz0 0;
                    unit = size_units ! unit_index
                in if unit_index = 0 then Inr (str_int (trunc sz) @ '' '' @ unit)
                   else if decimal_places < 0 \<or> 2147483647 < decimal_places then Inl ValueError
                   else (let result = format_fixed (nat decimal_places) sz @ '' '' @ unit
                         in if CHR ''.'' \<in> set result
                            then Inr (rstrip_chars (rstrip_chars result ''0'') ''.'' @ '' '' @ unit)
                            else Inr result)))"

text \<open>
  The character classes of \<open>str.strip\<close> and of the pattern \<open>([\d.]+)\s*([A-Za-z]+)\<close>, on
  ASCII; the whitespace and the digits of Unicode beyond ASCII are not modelled.
\<close>

definition is_space :: "char \<Rightarrow> bool" where
  "is_space c = ((9 \<le> (of_char c :: nat) \<and> (of_char c :: nat) \<le> 13) \<or>
                 (28 \<le> (of_char c :: nat) \<and> (of_char c :: nat) \<le> 32))"

definition is_digit :: "char \<Rightarrow> bool" where
  "is_digit c = (48 \<le> (of_char c :: nat) \<and> (of_char c :: nat) \<le> 57)"

definition is_alpha :: "char \<Rightarrow> bool" where
  "is_alpha c = ((65 \<le> (of_char c :: nat) \<and> (of_char c :: nat) \<le> 90) \<or>
                 (97 \<le> (of_char c :: nat) \<and> (of_char c :: nat) \<le> 122))"

definition is_num_char :: "char \<Rightarrow> bool" where
  "is_num_char c = (is_digit c \<or> c = CHR ''.'')"

definition strip :: "string \<Rightarrow> string" where
  "strip s = rev (dropWhile is_space (rev (dropWhile is_space s)))"

text \<open>
  \<open>float(s)\<close> on a string of digits and points, which is what the first group of the pattern
  holds: the correctly rounded value of a decimal numeral with at most one point and at
  least one digit, \<open>ValueError\<close> (\<open>None\<close>) otherwise.
\<close>

definition digits_value :: "string \<Rightarrow> nat" where
  "digits_value s = foldl (\<lambda>a c. 10 * a + ((of_char c :: nat) - 48)) 0 s"

definition float_of_decimal :: "string \<Rightarrow> py_float option" where
  "float_of_decimal s =
     (let ip = takeWhile is_digit s
      in case dropWhile is_digit s of
           [] \<Rightarrow> (if ip = [] then None else Some (to_float (of_nat (digits_value ip))))
         | c # fp \<Rightarrow>
             (if c = CHR ''.'' \<and> list_all is_digit fp \<and> \<not> (ip = [] \<and> fp = [])
              then Some (to_float (of_nat (digits_value (ip @ fp)) / 10 ^ length fp))
              else None))"

definition size_unit_table :: "(string \<times> int) list" where
  "size_unit_table =
     [(''B'', 1), (''BYTE'', 1), (''BYTES'', 1),
      (''K'', 1024), (''KB'', 1024), (''KIB'', 1024),
      (''M'', 1024 * 1024), (''MB'', 1024 * 1024), (''MIB'', 1024 * 1024),
      (''G'', 1024 * 1024 * 1024), (''GB'', 1024 * 1024 * 1024), (''GIB'', 1024 * 1024 * 1024),
      (''T'', 1024 * 1024 * 1024 * 1024), (''TB'', 1024 * 1024 * 1024 * 1024),
      (''TIB'', 1024 * 1024 * 1024 * 1024)]"

text \<open>The handler \<open>except (ValueError, TypeError): return 0\<close>.\<close>

fun catch_value_error :: "py_error + int \<Rightarrow> py_error + int" where
  "catch_value_error (Inl ValueError) = Inr 0"
| "catch_value_error r = r"

text \<open>
  \<open>SizeUtils.human_readable_to_bytes\<close>. \<open>re.match\<close> anchors the pattern at the start of the
  string; its three classes are disjoint, so the greedy match is the only one: the longest
  run of digits and points, the whitespace after it, the longest run of letters, the two
  runs being non-empty. When the pattern does not match, the source applies \<open>float\<close> to the
  whole string; the builtin on an arbitrary string (signs, exponents, \<open>inf\<close>, \<open>nan\<close>) is the
  parameter \<open>float_str\<close>, \<open>None\<close> standing for \<open>ValueError\<close>.
\<close>

definition human_readable_to_bytes :: "(string \<Rightarrow> py_float option) \<Rightarrow> string \<Rightarrow> py_error + int" where
  "human_readable_to_bytes float_str size_str0 =
     (let size_str = upper (strip size_str0)
      in if size_str = [] then Inr 0
         else (let group1 = takeWhile is_num_char size_str;
                   group2 = takeWhile is_alpha
                              (dropWhile is_space (dropWhile is_num_char size_str))
               in catch_value_error
                    (if group1 \<noteq> [] \<and> group2 \<noteq> []
                     then (case float_of_decimal group1 of
                             None \<Rightarrow> Inl ValueError
                           | Some size_val \<Rightarrow>
                               (case map_of size_unit_table (upper group2) of
                                  Some u \<Rightarrow> py_int (float_mul_int size_val u)
                                | None \<Rightarrow> py_int size_val))
                     else (case float_str size_str of
                             None \<Rightarrow> Inl ValueError
                           | Some v \<Rightarrow> py_int v))))"

section \<open>Properties of the double-precision rounding\<close>

lemma rhe_of_int: "round_half_even (of_int k) = k"
  by (simp add: round_half_even_def)

lemma rhe_ge: "of_int k \<le> y \<Longrightarrow> k \<le> round_half_even y"
proof -
  assume "of_int k \<le> y"
  then have "k \<le> \<lfloor>y\<rfloor>" by (simp add: le_floor_iff)
  moreover have "\<lfloor>y\<rfloor> \<le> round_half_even y" by (simp add: round_half_even_def Let_def)
  ultimately show ?thesis by linarith
qed

lemma rhe_le: "y \<le> of_int k \<Longrightarrow> round_half_even y \<le> k"
proof -
  assume a: "y \<le> of_int k"
  have f: "\<lfloor>y\<rfloor> \<le> k" using a by (simp add: floor_le_iff)
  show ?thesis
  proof (cases "\<lfloor>y\<rfloor> = k")
    case True
    then have "y = of_int k" using a by (metis of_int_floor_le order_antisym)
    then show ?thesis by (simp add: rhe_of_int)
  next
    case False
    then have "\<lfloor>y\<rfloor> + 1 \<le> k" using f by linarith
    then show ?thesis by (simp add: round_half_even_def Let_def)
  qed
qed

lemma rhe_err: "\<bar>of_int (round_half_even y) - y\<bar> \<le> 1/2"
proof -
  have "of_int \<lfloor>y\<rfloor> \<le> y" "y < of_int \<lfloor>y\<rfloor> + 1" by linarith+
  then show ?thesis
    by (auto simp add: round_half_even_def Let_def abs_le_iff)
qed

lemma find_up_hi: "x < 2 ^ 53 \<Longrightarrow> x * 2 ^ find_up n x < 2 ^ 53"
proof (induction n arbitrary: x)
  case 0
  then show ?case by simp
next
  case (Suc n)
  show ?case
  proof (cases "2 ^ 52 \<le> x")
    case True
    then show ?thesis using Suc.prems by simp
  next
    case False
    then have "2 * x < 2 ^ 53" by simp
    from Suc.IH [OF this] show ?thesis using False by (simp add: mult.assoc mult.commute)
  qed
qed

lemma find_up_lo: "2 ^ 52 \<le> x * 2 ^ n \<Longrightarrow> 2 ^ 52 \<le> x * 2 ^ find_up n x"
proof (induction n arbitrary: x)
  case 0
  then show ?case by simp
next
  case (Suc n)
  show ?case
  proof (cases "2 ^ 52 \<le> x")
    case True
    then show ?thesis by simp
  next
    case False
    have "2 ^ 52 \<le> (2 * x) * 2 ^ n" using Suc.prems by (simp add: mult.assoc mult.commute)
    from Suc.IH [OF this] show ?thesis using False by (simp add: mult.assoc mult.commute)
  qed
qed

lemma fl_small:
  "0 < x \<Longrightarrow> x < 2 ^ 53 \<Longrightarrow>
   fl x = of_int (round_half_even (x * 2 ^ find_up 1074 x)) / 2 ^ find_up 1074 x"
  by (simp add: fl_def fl_pos_def Let_def)

lemma fl_ge_int:
  assumes "0 < x" "x < 2 ^ 53" "of_int k \<le> x"
  shows "of_int k \<le> fl x"
proof -
  define p where "p = find_up 1074 x"
  have "of_int (k * 2 ^ p) \<le> x * 2 ^ p" using assms(3) by simp
  then have "k * 2 ^ p \<le> round_half_even (x * 2 ^ p)" by (rule rhe_ge)
  then have "(of_int (k * 2 ^ p) :: rat) \<le> of_int (round_half_even (x * 2 ^ p))"
    by (simp only: of_int_le_iff)
  then have "of_int k * 2 ^ p \<le> (of_int (round_half_even (x * 2 ^ p)) :: rat)" by simp
  then have "of_int k \<le> (of_int (round_half_even (x * 2 ^ p)) :: rat) / 2 ^ p"
    by (simp add: pos_le_divide_eq)
  then show ?thesis using assms(1,2) by (simp add: fl_small p_def)
qed

lemma fl_le_int:
  assumes "0 < x" "x < 2 ^ 53" "x \<le> of_int k"
  shows "fl x \<le> of_int k"
proof -
  define p where "p = find_up 1074 x"
  have "x * 2 ^ p \<le> of_int (k * 2 ^ p)" using assms(3) by simp
  then have "round_half_even (x * 2 ^ p) \<le> k * 2 ^ p" by (rule rhe_le)
  then have "(of_int (round_half_even (x * 2 ^ p)) :: rat) \<le> of_int (k * 2 ^ p)"
    by (simp only: of_int_le_iff)
  then have "(of_int (round_half_even (x * 2 ^ p)) :: rat) \<le> of_int k * 2 ^ p" by simp
  then have "(of_int (round_half_even (x * 2 ^ p)) :: rat) / 2 ^ p \<le> of_int k"
    by (simp add: pos_divide_le_eq)
  then show ?thesis using assms(1,2) by (simp add: fl_small p_def)
qed

lemma fl_exact:
  assumes "0 < x" "x < 2 ^ 53" "x * 2 ^ find_up 1074 x = of_int m"
  shows "fl x = x"
proof -
  have "fl x = of_int m / 2 ^ find_up 1074 x"
    using assms by (simp add: fl_small rhe_of_int)
  also have "\<dots> = x" using assms(3) [symmetric] by simp
  finally show ?thesis .
qed

lemma fl_err:
  assumes "0 < x" "x < 2 ^ 53" "2 ^ 52 \<le> x * 2 ^ 1074"
  shows "\<bar>fl x - x\<bar> \<le> x / 2 ^ 53"
proof -
  define p where "p = find_up 1074 x"
  have lo: "2 ^ 52 \<le> x * 2 ^ p" unfolding p_def using assms(3) by (rule find_up_lo)
  have "\<bar>of_int (round_half_even (x * 2 ^ p)) - x * 2 ^ p\<bar> \<le> 1/2" by (rule rhe_err)
  then have "\<bar>of_int (round_half_even (x * 2 ^ p)) - x * 2 ^ p\<bar> / 2 ^ p \<le> (1/2) / 2 ^ p"
    by (rule divide_right_mono) simp
  moreover have "\<bar>of_int (round_half_even (x * 2 ^ p)) - x * 2 ^ p\<bar> / 2 ^ p
      = \<bar>of_int (round_half_even (x * 2 ^ p)) / 2 ^ p - x\<bar>"
  proof -
    have "of_int (round_half_even (x * 2 ^ p)) / 2 ^ p - x
        = (of_int (round_half_even (x * 2 ^ p)) - x * 2 ^ p) / 2 ^ p"
      by (simp add: diff_divide_distrib)
    then show ?thesis by (simp only: abs_divide) simp
  qed
  ultimately have e: "\<bar>fl x - x\<bar> \<le> (1/2) / 2 ^ p"
    using assms(1,2) by (simp add: fl_small p_def)
  have "1 \<le> x * 2 ^ p / 2 ^ 52" using lo by (simp add: pos_le_divide_eq)
  then have "1 / 2 ^ p \<le> x / 2 ^ 52"
    by (simp add: field_simps)
  then have "(1/2) / 2 ^ p \<le> x / 2 ^ 53" by simp
  with e show ?thesis by linarith
qed

lemma floor_fl_quot:
  fixes a n :: int
  assumes a: "0 < a" and an: "a \<le> 100 * n" and n: "0 < n" and nb: "n < 2 ^ 45"
  shows "\<lfloor>fl (of_int a / of_int n)\<rfloor> = a div n"
proof -
  define x :: rat where "x = of_int a / of_int n"
  define q where "q = a div n"
  have npos: "(0::rat) < of_int n" using n by simp
  have xpos: "0 < x" using a n by (simp add: x_def)
  have x100: "x \<le> 100"
  proof -
    have "(of_int a :: rat) \<le> of_int (100 * n)" using an by (simp only: of_int_le_iff)
    then show ?thesis using npos by (simp add: x_def pos_divide_le_eq)
  qed
  have xlt: "x < 2 ^ 53" using x100 by simp
  have qle: "of_int q \<le> x"
  proof -
    have "0 \<le> a mod n" using n by simp
    then have "q * n \<le> a" unfolding q_def using div_mult_mod_eq [of a n] by linarith
    then have "(of_int (q * n) :: rat) \<le> of_int a" by (simp only: of_int_le_iff)
    then show ?thesis using npos by (simp add: x_def pos_le_divide_eq)
  qed
  have lower: "of_int q \<le> fl x" using xpos xlt qle by (rule fl_ge_int)
  have xup: "x \<le> of_int q + 1 - 1 / of_int n"
  proof -
    have "a mod n \<le> n - 1" using n pos_mod_bound [of n a] by linarith
    then have "a \<le> q * n + (n - 1)"
      unfolding q_def using div_mult_mod_eq [of a n] by linarith
    then have "(of_int a :: rat) \<le> of_int (q * n + (n - 1))" by (simp only: of_int_le_iff)
    moreover have "(of_int q + 1 - 1 / of_int n) * (of_int n :: rat)
        = of_int (q * n + (n - 1))"
      using npos by (simp add: algebra_simps)
    ultimately have "(of_int a :: rat) \<le> (of_int q + 1 - 1 / of_int n) * of_int n"
      by (simp only:)
    then show ?thesis using npos by (simp add: x_def pos_divide_le_eq)
  qed
  have ninv: "1 / 2 ^ 45 < 1 / (of_int n :: rat)"
  proof -
    have "(of_int n :: rat) < of_int (2 ^ 45)" using nb by (simp only: of_int_less_iff)
    then have "(of_int n :: rat) < 2 ^ 45" by simp
    then show ?thesis using npos by (simp add: frac_less2)
  qed
  have xlow: "1 / (of_int n :: rat) \<le> x"
  proof -
    have "(1::rat) \<le> of_int a" using a by (simp add: int_one_le_iff_zero_less)
    then show ?thesis using npos by (simp add: x_def divide_right_mono)
  qed
  have normal: "2 ^ 52 \<le> x * 2 ^ 1074"
  proof -
    have "(1 / 2 ^ 45 :: rat) * 2 ^ 1074 \<le> x * 2 ^ 1074"
      using xlow ninv by (intro mult_right_mono) simp_all
    moreover have "(2 ^ 52 :: rat) \<le> (1 / 2 ^ 45) * 2 ^ 1074" by simp
    ultimately show ?thesis by linarith
  qed
  have "\<bar>fl x - x\<bar> \<le> x / 2 ^ 53" using xpos xlt normal by (rule fl_err)
  then have "fl x \<le> x + x / 2 ^ 53" by linarith
  also have "\<dots> \<le> x + 100 / 2 ^ 53" using x100 by (simp add: divide_right_mono)
  also have "\<dots> < x + 1 / 2 ^ 45" by simp
  also have "\<dots> < x + 1 / of_int n" using ninv by simp
  also have "\<dots> \<le> of_int q + 1" using xup by simp
  finally have upper: "fl x < of_int (q + 1)" by simp
  have "\<lfloor>fl x\<rfloor> = q" using lower upper by (simp add: floor_unique)
  then show ?thesis by (simp add: x_def q_def)
qed

lemma find_up_eq:
  "0 < x \<Longrightarrow> k \<le> n \<Longrightarrow> 2 ^ 52 \<le> x * 2 ^ k \<Longrightarrow> (k = 0 \<or> x * 2 ^ (k - 1) < 2 ^ 52)
   \<Longrightarrow> find_up n x = k"
proof (induction n arbitrary: x k)
  case 0
  then show ?case by simp
next
  case (Suc n)
  show ?case
  proof (cases "2 ^ 52 \<le> x")
    case True
    have "k = 0"
    proof (rule ccontr)
      assume "k \<noteq> 0"
      then have lt: "x * 2 ^ (k - 1) < 2 ^ 52" using Suc.prems(4) by simp
      have "x * 1 \<le> x * 2 ^ (k - 1)" using Suc.prems(1) by (intro mult_left_mono) simp_all
      then show False using lt True by simp
    qed
    then show ?thesis using True by simp
  next
    case False
    then have kpos: "k \<noteq> 0" using Suc.prems(3) by (cases k) auto
    then obtain k' where k': "k = Suc k'" by (cases k) auto
    have "find_up n (2 * x) = k'"
    proof (rule Suc.IH)
      show "0 < 2 * x" using Suc.prems(1) by simp
      show "k' \<le> n" using Suc.prems(2) k' by simp
      show "2 ^ 52 \<le> 2 * x * 2 ^ k'" using Suc.prems(3) k' by (simp add: mult.assoc mult.commute)
      show "k' = 0 \<or> 2 * x * 2 ^ (k' - 1) < 2 ^ 52"
      proof (cases k')
        case 0
        then show ?thesis by simp
      next
        case (Suc j)
        then show ?thesis using Suc.prems(4) k' by (simp add: mult.assoc mult.commute)
      qed
    qed
    then show ?thesis using False k' by simp
  qed
qed

lemma fl_eval:
  assumes "0 < x" "x < 2 ^ 53" "k \<le> 1074" "2 ^ 52 \<le> x * 2 ^ k" "k = 0 \<or> x * 2 ^ (k - 1) < 2 ^ 52"
  shows "fl x = of_int (round_half_even (x * 2 ^ k)) / 2 ^ k"
  using assms by (simp add: fl_small find_up_eq)

lemma floor_numeral_divide:
  "\<lfloor>numeral a / numeral b :: rat\<rfloor> = numeral a div numeral b"
  using floor_divide_of_int_eq [of "numeral a" "numeral b", where ?'a = rat] by simp

lemma fl_2_3: "fl (2 / 3) = 6004799503160661 / 9007199254740992"
  by (subst fl_eval [where k = 53]) (simp_all add: round_half_even_def Let_def floor_numeral_divide)

lemma fl_2_3_100:
  "fl (150119987579016525 / 2251799813685248) = 2345624805922133 / 35184372088832"
  by (subst fl_eval [where k = 46]) (simp_all add: round_half_even_def Let_def floor_numeral_divide)

lemma clean_percent_2_3: "clean_percent 2 3 = 66"
  by (simp add: clean_percent_def fl_2_3 fl_2_3_100 trunc_def floor_numeral_divide)

lemma fl_29_100: "fl (29 / 100) = 5224175567749775 / 18014398509481984"
  by (subst fl_eval [where k = 54]) (simp_all add: round_half_even_def Let_def floor_numeral_divide)

lemma fl_29_100_100:
  "fl (130604389193744375 / 4503599627370496) = 8162774324609023 / 281474976710656"
  by (subst fl_eval [where k = 48]) (simp_all add: round_half_even_def Let_def floor_numeral_divide)

lemma clean_percent_29_100: "clean_percent 29 100 = 28"
  by (simp add: clean_percent_def fl_29_100 fl_29_100_100 trunc_def floor_numeral_divide)

section \<open>Properties of the analysis result\<close>

lemma sort_by_size_desc_sorted: "sorted_desc (sort_by_size_desc xs)"
proof -
  have "sorted (map (\<lambda>x. - snd x) (sort_key (\<lambda>x. - snd x) xs))"
    by (rule sorted_sort_key)
  then show ?thesis
    by (simp add: sorted_desc_def sort_by_size_desc_def sorted_wrt_map sorted_wrt_iff_nth_less)
qed

lemma sorted_desc_take: "sorted_desc xs \<Longrightarrow> sorted_desc (take n xs)"
  by (simp add: sorted_desc_def sorted_wrt_take)

lemma update_largest_bounded: "length (update_largest n xs p s) \<le> max n (length xs + 1)"
  by (simp add: update_largest_def Let_def sort_by_size_desc_def)

lemma update_largest_le: "length (update_largest n xs p s) \<le> n \<or> n < length xs + 1"
  by (simp add: update_largest_def Let_def sort_by_size_desc_def)

lemma update_largest_length: "length xs \<le> n \<Longrightarrow> length (update_largest n xs p s) \<le> n"
  by (simp add: update_largest_def Let_def sort_by_size_desc_def)

lemma update_largest_sorted: "sorted_desc (update_largest n xs p s)"
  by (simp add: update_largest_def Let_def sort_by_size_desc_sorted sorted_desc_take)

lemma largest_ok_new: "largest_ok new_AnalyzeResult"
  by (simp add: largest_ok_def new_AnalyzeResult_def sorted_desc_def)

lemma largest_ok_step: "largest_ok r \<Longrightarrow> largest_ok (apply_update r u)"
  by (cases u)
     (simp_all add: largest_ok_def add_file_def add_dir_def Let_def update_largest_files_def
        update_largest_dirs_def update_largest_length update_largest_sorted)

lemma largest_ok_foldl: "largest_ok r \<Longrightarrow> largest_ok (foldl apply_update r us)"
  by (induction us arbitrary: r) (simp_all add: largest_ok_step)

text \<open>
  C8. After any sequence of \<open>add_file\<close> and \<open>add_dir\<close> calls on a fresh \<open>AnalyzeResult\<close>, the
  largest-files list and the largest-dirs list each hold at most 20 entries and are sorted
  in descending order of size.
\<close>

theorem largest_lists_bounded_sorted:
  "length (largest_files (foldl apply_update new_AnalyzeResult us)) \<le> 20 \<and>
   sorted_desc (largest_files (foldl apply_update new_AnalyzeResult us)) \<and>
   length (largest_dirs (foldl apply_update new_AnalyzeResult us)) \<le> 20 \<and>
   sorted_desc (largest_dirs (foldl apply_update new_AnalyzeResult us))"
  using largest_ok_foldl [OF largest_ok_new, of us] by (simp add: largest_ok_def)

text \<open>
  C9. \<open>remove_target\<close> with an index that is negative or at least the number of targets
  returns normally and leaves the target list unchanged; an index in range returns normally
  with exactly the target at that position removed.
\<close>

theorem remove_target_guard:
  "remove_target targets i =
     (if i < 0 \<or> int (length targets) \<le> i then Inr targets
      else Inr (take (nat i) targets @ drop (Suc (nat i)) targets))"
  by (simp add: remove_target_def py_del_def Let_def)

text \<open>
  C10. In \<open>ScanFilter.match_file\<close> a \<open>max_size\<close> of 0 behaves as no upper size bound and
  a \<open>min_age_days\<close> of 0 as no age bound (the zero is read as unset): the filter decides
  every file as it does with the field set to \<open>None\<close>, and with both set to 0 and no
  other restriction every file passes, whatever its size and age.
\<close>

theorem match_file_zero_is_unset:
  "match_file now (f\<lparr>sf_max_size := Some 0\<rparr>) p s t
     = match_file now (f\<lparr>sf_max_size := None\<rparr>) p s t \<and>
   match_file now (f\<lparr>sf_min_age_days := Some 0\<rparr>) p s t
     = match_file now (f\<lparr>sf_min_age_days := None\<rparr>) p s t \<and>
   match_file now
     \<lparr>sf_min_size = 0, sf_max_size = Some 0, sf_min_age_days = Some 0,
      sf_extensions = [], sf_exclude_exts = []\<rparr> p s t"
  by (simp add: match_file_def truthy_def)

theorem match_file_zero_is_unset_witness:
  "match_file 1000
     \<lparr>sf_min_size = 0, sf_max_size = Some 0, sf_min_age_days = Some 0,
      sf_extensions = [], sf_exclude_exts = []\<rparr> ''/tmp/big.iso'' 5000000000 1000"
  using match_file_zero_is_unset [of 1000 _ "''/tmp/big.iso''" 5000000000 1000]
  by simp

section \<open>Properties of the cleaner\<close>

lemma processed_le: "processed aborts i n \<le> n"
  by (induction n arbitrary: i) auto

lemma processed_no_abort: "(\<And>j. \<not> aborts j) \<Longrightarrow> processed aborts i n = n"
  by (induction n arbitrary: i) auto






lemma clean_loop_run:
  assumes "\<And>a b c. (case pcb of None \<Rightarrow> True | Some cb \<Rightarrow> cb a b c = Returns)"
  shows "\<exists>fs'. clean_loop env aborts pcb m tot tasks i fs rs tr =
           (False, fs',
            rs @ clean_results env m i fs (take (processed aborts i (length tasks)) tasks),
            tr @ concat (map (\<lambda>(j, t).
                    (case pcb of None \<Rightarrow> []
                     | Some cb \<Rightarrow> [CleanProgress (int j + 1) tot (clean_percent (int j + 1) tot)])
                    @ [CleanFile (ct_file_path t)])
                  (enumerate i (take (processed aborts i (length tasks)) tasks))))"
proof (induction tasks arbitrary: i fs rs tr)
  case Nil
  then show ?case by simp
next
  case (Cons t ts)
  show ?case
  proof (cases "aborts i")
    case True
    then show ?thesis by simp
  next
    case False
    obtain r fs1 where cf: "clean_file env i fs t m = (r, fs1)"
      by (cases "clean_file env i fs t m")
    have nr: "\<not> (case pcb of None \<Rightarrow> False
                   | Some cb \<Rightarrow> cb (int i + 1) tot (clean_percent (int i + 1) tot) = Raises)"
      using assms [of "int i + 1" tot "clean_percent (int i + 1) tot"] by (cases pcb) auto
    define tr1 where "tr1 = (case pcb of None \<Rightarrow> tr
        | Some cb \<Rightarrow> tr @ [CleanProgress (int i + 1) tot (clean_percent (int i + 1) tot)])"
    from Cons.IH [of "Suc i" fs1 "rs @ [r]" "tr1 @ [CleanFile (ct_file_path t)]"]
    obtain fs' where
      ih: "clean_loop env aborts pcb m tot ts (Suc i) fs1 (rs @ [r])
             (tr1 @ [CleanFile (ct_file_path t)]) =
           (False, fs',
            (rs @ [r]) @ clean_results env m (Suc i) fs1
               (take (processed aborts (Suc i) (length ts)) ts),
            (tr1 @ [CleanFile (ct_file_path t)]) @ concat (map (\<lambda>(j, t).
                    (case pcb of None \<Rightarrow> []
                     | Some cb \<Rightarrow> [CleanProgress (int j + 1) tot (clean_percent (int j + 1) tot)])
                    @ [CleanFile (ct_file_path t)])
                  (enumerate (Suc i) (take (processed aborts (Suc i) (length ts)) ts))))"
      by blast
    have "clean_loop env aborts pcb m tot (t # ts) i fs rs tr =
            clean_loop env aborts pcb m tot ts (Suc i) fs1 (rs @ [r])
              (tr1 @ [CleanFile (ct_file_path t)])"
      using False nr cf by (simp add: Let_def tr1_def)
    then show ?thesis
      using ih False cf by (cases pcb) (simp_all add: tr1_def)
  qed
qed

lemma clean_thread_run:
  assumes "\<And>a b c. (case pcb of None \<Rightarrow> True | Some cb \<Rightarrow> cb a b c = Returns)"
  shows "\<exists>fs'. clean_thread env aborts pcb (Some ccb) c fs tasks m =
           (c\<lparr>cl_running := False\<rparr>, fs',
            concat (map (\<lambda>(j, t).
                    (case pcb of None \<Rightarrow> []
                     | Some cb \<Rightarrow> [CleanProgress (int j + 1) (int (length tasks))
                                    (clean_percent (int j + 1) (int (length tasks)))])
                    @ [CleanFile (ct_file_path t)])
                  (enumerate 0 (take (processed aborts 0 (length tasks)) tasks)))
            @ [CleanComplete
                 (clean_results env m 0 fs (take (processed aborts 0 (length tasks)) tasks))])"
proof -
  from clean_loop_run [of pcb env aborts m "int (length tasks)" tasks 0 fs "[]" "[]"] assms
  obtain fs' where
    "clean_loop env aborts pcb m (int (length tasks)) tasks 0 fs [] [] =
       (False, fs',
        [] @ clean_results env m 0 fs (take (processed aborts 0 (length tasks)) tasks),
        [] @ concat (map (\<lambda>(j, t).
                    (case pcb of None \<Rightarrow> []
                     | Some cb \<Rightarrow> [CleanProgress (int j + 1) (int (length tasks))
                                    (clean_percent (int j + 1) (int (length tasks)))])
                    @ [CleanFile (ct_file_path t)])
                  (enumerate 0 (take (processed aborts 0 (length tasks)) tasks))))"
    by blast
  then show ?thesis by (simp add: clean_thread_def Let_def)
qed




lemma clean_percent_bounds:
  fixes c t :: int
  assumes c: "0 < c" and ct: "c \<le> t" and tb: "t < 2 ^ 44"
  shows "(100 * c) div t - 1 \<le> clean_percent c t \<and> clean_percent c t \<le> (100 * c) div t"
proof -
  define x :: rat where "x = of_int c / of_int t"
  define y where "y = fl x"
  define w where "w = y * 100"
  define z where "z = fl w"
  define q where "q = (100 * c) div t"
  have t: "0 < t" using c ct by linarith
  have tpos: "(0::rat) < of_int t" using t by simp
  have xpos: "0 < x" using c t by (simp add: x_def)
  have x1: "x \<le> 1"
  proof -
    have "(of_int c :: rat) \<le> of_int t" using ct by (simp only: of_int_le_iff)
    then show ?thesis using tpos by (simp add: x_def pos_divide_le_eq)
  qed
  have tinv: "1 / 2 ^ 44 < 1 / (of_int t :: rat)"
  proof -
    have "(of_int t :: rat) < of_int (2 ^ 44)" using tb by (simp only: of_int_less_iff)
    then have "(of_int t :: rat) < 2 ^ 44" by simp
    then show ?thesis using tpos by (simp add: frac_less2)
  qed
  have xlow: "1 / (of_int t :: rat) \<le> x"
  proof -
    have "(1::rat) \<le> of_int c" using c by (simp add: int_one_le_iff_zero_less)
    then show ?thesis using tpos by (simp add: x_def divide_right_mono)
  qed
  have xlow': "1 / 2 ^ 44 \<le> x" using tinv xlow by linarith
  have xnormal: "2 ^ 52 \<le> x * 2 ^ 1074"
  proof -
    have "(1 / 2 ^ 44 :: rat) * 2 ^ 1074 \<le> x * 2 ^ 1074"
      using xlow' by (intro mult_right_mono) simp_all
    moreover have "(2 ^ 52 :: rat) \<le> (1 / 2 ^ 44) * 2 ^ 1074" by simp
    ultimately show ?thesis by linarith
  qed
  have xlt: "x < 2 ^ 53" using x1 by simp
  have yerr: "\<bar>y - x\<bar> \<le> x / 2 ^ 53" unfolding y_def using xpos xlt xnormal by (rule fl_err)
  have y1: "y \<le> 1" unfolding y_def using fl_le_int [of x 1] xpos xlt x1 by simp
  have ylow: "x / 2 \<le> y"
  proof -
    have "x / 2 ^ 53 \<le> x / 2" using xpos by (intro divide_left_mono) simp_all
    then show ?thesis using yerr by linarith
  qed
  have ypos: "0 < y" using ylow xpos by linarith
  have wpos: "0 < w" using ypos by (simp add: w_def)
  have w100: "w \<le> 100" using y1 by (simp add: w_def)
  have wlt: "w < 2 ^ 53" using w100 by simp
  have wlow: "1 / 2 ^ 44 \<le> w" using ylow xlow' by (simp add: w_def)
  have wnormal: "2 ^ 52 \<le> w * 2 ^ 1074"
  proof -
    have "(1 / 2 ^ 44 :: rat) * 2 ^ 1074 \<le> w * 2 ^ 1074"
      using wlow by (intro mult_right_mono) simp_all
    moreover have "(2 ^ 52 :: rat) \<le> (1 / 2 ^ 44) * 2 ^ 1074" by simp
    ultimately show ?thesis by linarith
  qed
  have zerr: "\<bar>z - w\<bar> \<le> w / 2 ^ 53" unfolding z_def using wpos wlt wnormal by (rule fl_err)
  define u :: rat where "u = 1 / 2 ^ 53"
  define e1 where "e1 = x / 2 ^ 53"
  define e2 where "e2 = w / 2 ^ 53"
  have e2u: "e2 \<le> 100 * u" using w100 by (simp add: e2_def u_def divide_right_mono)
  have e1u: "e1 \<le> u" using x1 by (simp add: e1_def u_def divide_right_mono)
  have yerr': "\<bar>y - x\<bar> \<le> e1" using yerr by (simp only: e1_def)
  have zerr': "\<bar>z - w\<bar> \<le> e2" using zerr by (simp only: e2_def)
  have weq: "w = 100 * y" by (simp add: w_def)
  have zhi: "z \<le> 100 * x + 200 * u" using zerr' yerr' e2u e1u weq by linarith
  have zlo: "100 * x - 200 * u \<le> z" using zerr' yerr' e2u e1u weq by linarith
  have qle: "of_int q \<le> 100 * x"
  proof -
    have "0 \<le> (100 * c) mod t" using t by simp
    then have "q * t \<le> 100 * c" unfolding q_def using div_mult_mod_eq [of "100 * c" t] by linarith
    then have "(of_int (q * t) :: rat) \<le> of_int (100 * c)" by (simp only: of_int_le_iff)
    then have "of_int q * of_int t \<le> 100 * (of_int c :: rat)" by simp
    then have "of_int q \<le> 100 * (of_int c :: rat) / of_int t"
      using tpos by (simp add: pos_le_divide_eq)
    then show ?thesis by (simp add: x_def)
  qed
  have xup: "100 * x \<le> of_int q + 1 - 1 / of_int t"
  proof -
    have "(100 * c) mod t \<le> t - 1" using t pos_mod_bound [of t "100 * c"] by linarith
    then have "100 * c \<le> q * t + (t - 1)"
      unfolding q_def using div_mult_mod_eq [of "100 * c" t] by linarith
    then have "(of_int (100 * c) :: rat) \<le> of_int (q * t + (t - 1))" by (simp only: of_int_le_iff)
    moreover have "(of_int q + 1 - 1 / of_int t) * (of_int t :: rat)
        = of_int (q * t + (t - 1))"
      using tpos by (simp add: algebra_simps)
    ultimately have "(of_int (100 * c) :: rat) \<le> (of_int q + 1 - 1 / of_int t) * of_int t"
      by (simp only:)
    then have "(of_int (100 * c) :: rat) / of_int t \<le> of_int q + 1 - 1 / of_int t"
      using tpos by (simp add: pos_divide_le_eq)
    then show ?thesis by (simp add: x_def)
  qed
  have small: "200 * u < 1 / 2 ^ 44" by (simp add: u_def)
  have small1: "200 * u < 1" by (simp add: u_def)
  have "z < of_int q + 1" using zhi xup tinv small by linarith
  then have zlt: "z < of_int (q + 1)" by simp
  have "of_int q - 1 < z" using zlo qle small1 by linarith
  then have zge: "of_int (q - 1) < z" by simp
  have zpos: "0 \<le> z" unfolding z_def using fl_ge_int [of w 0] wpos wlt by simp
  have "clean_percent c t = \<lfloor>z\<rfloor>"
    using t zpos by (simp add: clean_percent_def trunc_def z_def w_def y_def x_def)
  moreover have "\<lfloor>z\<rfloor> \<le> q" using zlt by (simp add: floor_less_iff [symmetric] del: of_int_add)
  moreover have "q - 1 \<le> \<lfloor>z\<rfloor>" using zge by (simp add: le_floor_iff del: of_int_diff)
  ultimately show ?thesis by (simp add: q_def)
qed

lemma fl_1: "fl 1 = 1"
  by (subst fl_eval [where k = 52]) (simp_all add: rhe_of_int round_half_even_def)

lemma fl_100: "fl 100 = 100"
  by (subst fl_eval [where k = 46]) (simp_all add: round_half_even_def)

lemma clean_percent_1_1: "clean_percent 1 1 = 100"
  by (simp add: clean_percent_def fl_1 fl_100 trunc_def)

lemma fl_1_2: "fl (1 / 2) = 1 / 2"
  by (subst fl_eval [where k = 53]) (simp_all add: round_half_even_def)

lemma fl_50: "fl 50 = 50"
  by (subst fl_eval [where k = 47]) (simp_all add: round_half_even_def)

lemma clean_percent_1_2: "clean_percent 1 2 = 50"
  by (simp add: clean_percent_def fl_1_2 fl_50 trunc_def)

text \<open>
  C6 (as amended). During a clean whose progress callback returns, the progress callback
  is called once for every task that is processed (every task of the list in a run that
  is not aborted, the tasks before the first read of the abort flag that finds it set
  otherwise), before the task is processed, with the 1-based index \<open>current\<close> and the
  length \<open>total\<close> of the task list. The percent argument is \<open>int((current / total) * 100)\<close>,
  computed in double precision and truncated: for \<open>total < 2^44\<close> it is the floor of
  \<open>current * 100 / total\<close> or one less (66 for 2 of 3, 28 for 29 of 100), and it is 100
  when \<open>total\<close> is not positive (a case in which the callback is never called).
\<close>

theorem clean_progress_contract:
  "((\<forall>a b c. cb a b c = Returns) \<longrightarrow>
      (\<exists>rs. snd (snd (clean_thread env aborts (Some cb) (Some ccb) c fs tasks m))
           = concat (map (\<lambda>(j, t). [CleanProgress (int j + 1) (int (length tasks))
                                        (clean_percent (int j + 1) (int (length tasks))),
                                      CleanFile (ct_file_path t)])
                      (enumerate 0 (take (processed aborts 0 (length tasks)) tasks)))
             @ [CleanComplete rs])) \<and>
   ((\<forall>j. \<not> aborts j) \<longrightarrow> processed aborts 0 (length tasks) = length tasks) \<and>
   (0 < cur \<and> cur \<le> tot \<and> tot < 2 ^ 44 \<longrightarrow>
      (100 * cur) div tot - 1 \<le> clean_percent cur tot \<and>
      clean_percent cur tot \<le> (100 * cur) div tot) \<and>
   (tot \<le> 0 \<longrightarrow> clean_percent cur tot = 100) \<and>
   clean_percent 2 3 = 66 \<and> clean_percent 29 100 = 28"
proof (intro conjI impI)
  assume a: "\<forall>a b c. cb a b c = Returns"
  from clean_thread_run [of "Some cb" env aborts ccb c fs tasks m] a
  obtain fs' where
    r: "clean_thread env aborts (Some cb) (Some ccb) c fs tasks m =
           (c\<lparr>cl_running := False\<rparr>, fs',
            concat (map (\<lambda>(j, t).
                    (case Some cb of None \<Rightarrow> []
                     | Some cb \<Rightarrow> [CleanProgress (int j + 1) (int (length tasks))
                                    (clean_percent (int j + 1) (int (length tasks)))])
                    @ [CleanFile (ct_file_path t)])
                  (enumerate 0 (take (processed aborts 0 (length tasks)) tasks)))
            @ [CleanComplete
                 (clean_results env m 0 fs (take (processed aborts 0 (length tasks)) tasks))])"
    by auto
  show "\<exists>rs. snd (snd (clean_thread env aborts (Some cb) (Some ccb) c fs tasks m))
           = concat (map (\<lambda>(j, t). [CleanProgress (int j + 1) (int (length tasks))
                                        (clean_percent (int j + 1) (int (length tasks))),
                                      CleanFile (ct_file_path t)])
                      (enumerate 0 (take (processed aborts 0 (length tasks)) tasks)))
             @ [CleanComplete rs]"
    unfolding r by simp
next
  assume "\<forall>j. \<not> aborts j"
  then show "processed aborts 0 (length tasks) = length tasks"
    by (intro processed_no_abort) simp
next
  assume h: "0 < cur \<and> cur \<le> tot \<and> tot < 2 ^ 44"
  then show "(100 * cur) div tot - 1 \<le> clean_percent cur tot"
    using clean_percent_bounds [of cur tot] by simp
  from h show "clean_percent cur tot \<le> (100 * cur) div tot"
    using clean_percent_bounds [of cur tot] by simp
next
  assume "tot \<le> 0"
  then show "clean_percent cur tot = 100" by (simp add: clean_percent_def)
next
  show "clean_percent 2 3 = 66" by (rule clean_percent_2_3)
  show "clean_percent 29 100 = 28" by (rule clean_percent_29_100)
qed

text \<open>
  A run over two tasks that is aborted before the second: one call of the progress
  callback, with 50 percent, before the first file is processed.
\<close>

theorem clean_progress_contract_witness:
  "(0::int) < 2 \<and> (2::int) \<le> 3 \<and> (3::int) < 2 ^ 44 \<and>
   (100 * 2) div 3 - 1 \<le> clean_percent 2 3 \<and> clean_percent 2 3 \<le> (100 * 2) div 3 \<and>
   (\<exists>rs. snd (snd (clean_thread
       \<lparr>resolve = (\<lambda>p. p), clock_now = (\<lambda>i. 7), epoch_seconds = (\<lambda>i. 7),
        trash_error = (\<lambda>p. None), remove_error = (\<lambda>p. None),
        rmtree_error = (\<lambda>p. None), rename_error = (\<lambda>p. None), overwrite_error = (\<lambda>p. None)\<rparr>
       (\<lambda>i. i = 1) (Some (\<lambda>a b c. Returns)) (Some (\<lambda>rs. Returns))
       \<lparr>cl_method = RECYCLE_BIN, cl_running = True, cl_abort_flag = False\<rparr>
       [''/tmp/a.tmp'' \<mapsto> RegularFile, ''/tmp/b.tmp'' \<mapsto> RegularFile]
       [\<lparr>ct_file_path = ''/tmp/a.tmp'', ct_metadata = [], ct_size = 10\<rparr>,
        \<lparr>ct_file_path = ''/tmp/b.tmp'', ct_metadata = [], ct_size = 20\<rparr>] PERMANENT))
     = [CleanProgress 1 2 50, CleanFile ''/tmp/a.tmp'', CleanComplete rs])"
  using clean_progress_contract
    [where cur = 2 and tot = 3 and aborts = "\<lambda>i. i = 1" and cb = "\<lambda>a b c. Returns"
       and ccb = "\<lambda>rs. Returns"
       and env = "\<lparr>resolve = (\<lambda>p. p), clock_now = (\<lambda>i. 7), epoch_seconds = (\<lambda>i. 7),
                   trash_error = (\<lambda>p. None), remove_error = (\<lambda>p. None),
                   rmtree_error = (\<lambda>p. None), rename_error = (\<lambda>p. None),
                   overwrite_error = (\<lambda>p. None)\<rparr>"
       and c = "\<lparr>cl_method = RECYCLE_BIN, cl_running = True, cl_abort_flag = False\<rparr>"
       and fs = "[''/tmp/a.tmp'' \<mapsto> RegularFile, ''/tmp/b.tmp'' \<mapsto> RegularFile]"
       and tasks = "[\<lparr>ct_file_path = ''/tmp/a.tmp'', ct_metadata = [], ct_size = 10\<rparr>,
                     \<lparr>ct_file_path = ''/tmp/b.tmp'', ct_metadata = [], ct_size = 20\<rparr>]"
       and m = PERMANENT]
  by (simp add: clean_percent_1_2)

text \<open>
  The claim as the specification states it fails: in a clean over three existing files the
  second call of the progress callback comes before the second file is processed and
  reports 66 percent, not \<open>round(2 * 100 / 3) = 67\<close>.
\<close>

theorem clean_progress_counterexample:
  "snd (snd (clean_thread
       \<lparr>resolve = (\<lambda>p. p), clock_now = (\<lambda>i. 7), epoch_seconds = (\<lambda>i. 7),
        trash_error = (\<lambda>p. None), remove_error = (\<lambda>p. None),
        rmtree_error = (\<lambda>p. None), rename_error = (\<lambda>p. None), overwrite_error = (\<lambda>p. None)\<rparr>
       (\<lambda>i. False) (Some (\<lambda>a b c. Returns)) (Some (\<lambda>rs. Returns))
       \<lparr>cl_method = RECYCLE_BIN, cl_running = True, cl_abort_flag = False\<rparr>
       [''/tmp/a.tmp'' \<mapsto> RegularFile, ''/tmp/b.tmp'' \<mapsto> RegularFile,
        ''/tmp/c.tmp'' \<mapsto> RegularFile]
       [\<lparr>ct_file_path = ''/tmp/a.tmp'', ct_metadata = [], ct_size = 10\<rparr>,
        \<lparr>ct_file_path = ''/tmp/b.tmp'', ct_metadata = [], ct_size = 20\<rparr>,
        \<lparr>ct_file_path = ''/tmp/c.tmp'', ct_metadata = [], ct_size = 30\<rparr>] PERMANENT)) ! 2
     = CleanProgress 2 3 66 \<and>
   snd (snd (clean_thread
       \<lparr>resolve = (\<lambda>p. p), clock_now = (\<lambda>i. 7), epoch_seconds = (\<lambda>i. 7),
        trash_error = (\<lambda>p. None), remove_error = (\<lambda>p. None),
        rmtree_error = (\<lambda>p. None), rename_error = (\<lambda>p. None), overwrite_error = (\<lambda>p. None)\<rparr>
       (\<lambda>i. False) (Some (\<lambda>a b c. Returns)) (Some (\<lambda>rs. Returns))
       \<lparr>cl_method = RECYCLE_BIN, cl_running = True, cl_abort_flag = False\<rparr>
       [''/tmp/a.tmp'' \<mapsto> RegularFile, ''/tmp/b.tmp'' \<mapsto> RegularFile,
        ''/tmp/c.tmp'' \<mapsto> RegularFile]
       [\<lparr>ct_file_path = ''/tmp/a.tmp'', ct_metadata = [], ct_size = 10\<rparr>,
        \<lparr>ct_file_path = ''/tmp/b.tmp'', ct_metadata = [], ct_size = 20\<rparr>,
        \<lparr>ct_file_path = ''/tmp/c.tmp'', ct_metadata = [], ct_size = 30\<rparr>] PERMANENT)) ! 3
     = CleanFile ''/tmp/b.tmp'' \<and>
   py_round (2 * 100 / 3) = 67 \<and> (66::int) \<noteq> 67"
  by (simp add: clean_thread_def Let_def clean_file_def clean_op_def path_exists_def isdir_def
      os_remove_def new_CleanResult_def clean_percent_2_3 py_round_def round_half_even_def
      floor_numeral_divide)

section \<open>Properties of the scanner\<close>

lemma find_up_Suc: "x < 2 ^ 52 \<Longrightarrow> find_up 1074 x = Suc (find_up 1073 (2 * x))"
proof -
  have "(1074::nat) = Suc 1073" by simp
  then show "x < 2 ^ 52 \<Longrightarrow> find_up 1074 x = Suc (find_up 1073 (2 * x))"
    by (simp only: find_up.simps) simp
qed

lemma fl_of_int:
  assumes "0 < k" "k < 2 ^ 53"
  shows "fl (of_int k) = of_int k"
proof (rule fl_exact)
  show "(0::rat) < of_int k" using assms(1) by simp
  have "(of_int k :: rat) < of_int (2 ^ 53)" using assms(2) by (simp only: of_int_less_iff)
  then show "(of_int k :: rat) < 2 ^ 53" by simp
  show "of_int k * 2 ^ find_up 1074 (of_int k) = (of_int (k * 2 ^ find_up 1074 (of_int k)) :: rat)"
    by simp
qed

lemma fl_half_int:
  assumes "0 < k" "k < 2 ^ 53"
  shows "fl (of_int k / 2) = of_int k / 2"
proof -
  define x :: rat where "x = of_int k / 2"
  have "(of_int k :: rat) < of_int (2 ^ 53)" using assms(2) by (simp only: of_int_less_iff)
  then have k53: "(of_int k :: rat) < 2 ^ 53" by simp
  then have x52: "x < 2 ^ 52" by (simp add: x_def)
  have xpos: "0 < x" using assms(1) by (simp add: x_def)
  define p' where "p' = find_up 1073 (2 * x)"
  have p: "find_up 1074 x = Suc p'" unfolding p'_def using x52 by (rule find_up_Suc)
  have hx: "2 * x = of_int k" by (simp add: x_def)
  have "x * 2 ^ Suc p' = (2 * x) * 2 ^ p'" by simp
  also have "\<dots> = of_int k * 2 ^ p'" by (simp only: hx)
  also have "\<dots> = of_int (k * 2 ^ p')" by simp
  finally have "x * 2 ^ find_up 1074 x = of_int (k * 2 ^ p')" by (simp only: p)
  moreover have "x < 2 ^ 53" using x52 by simp
  ultimately have "fl x = x" using xpos by (intro fl_exact)
  then show ?thesis by (simp add: x_def)
qed

lemma trunc_nonneg: "0 \<le> x \<Longrightarrow> trunc x = \<lfloor>x\<rfloor>"
  by (simp add: trunc_def)

lemma scan_percent_after_eq:
  assumes "0 < c" "c \<le> n" "n < 2 ^ 45"
  shows "scan_percent_after c n = (100 * c) div n"
proof -
  have n: "0 < n" using assms by linarith
  have fq: "\<lfloor>fl (of_int (100 * c) / of_int n)\<rfloor> = (100 * c) div n"
    using assms n by (intro floor_fl_quot) simp_all
  have "0 \<le> (100 * c) div n" using assms n by (simp add: pos_imp_zdiv_nonneg_iff)
  then have "0 \<le> \<lfloor>fl (of_int (100 * c) / of_int n)\<rfloor>" by (simp only: fq)
  then have "0 \<le> fl (of_int (100 * c) / of_int n)" by (simp only: zero_le_floor)
  then show ?thesis using fq by (simp add: scan_percent_after_def trunc_nonneg mult.commute)
qed

lemma scan_percent_before_eq:
  assumes "0 < c" "c \<le> n" "n < 2 ^ 45"
  shows "scan_percent_before c n = (100 * c - 50) div n"
proof -
  have n: "0 < n" using assms by linarith
  have c45: "c < 2 ^ 45" using assms by linarith
  have e1: "(of_int c - 1 / 2 :: rat) = of_int (2 * c - 1) / 2" by (simp add: field_simps)
  have f1: "fl (of_int c - 1 / 2) = of_int (2 * c - 1) / 2"
    unfolding e1 using assms(1) c45 by (intro fl_half_int) simp_all
  have e2: "(of_int (2 * c - 1) / 2 * 100 :: rat) = of_int (100 * c - 50)" by simp
  have f2: "fl (of_int (2 * c - 1) / 2 * 100) = of_int (100 * c - 50)"
    unfolding e2 using assms(1) c45 by (intro fl_of_int) simp_all
  have fq: "\<lfloor>fl (of_int (100 * c - 50) / of_int n)\<rfloor> = (100 * c - 50) div n"
    using assms n by (intro floor_fl_quot) simp_all
  have "0 \<le> (100 * c - 50) div n" using assms n by (simp add: pos_imp_zdiv_nonneg_iff)
  then have "0 \<le> \<lfloor>fl (of_int (100 * c - 50) / of_int n)\<rfloor>" by (simp only: fq)
  then have "0 \<le> fl (of_int (100 * c - 50) / of_int n)" by (simp only: zero_le_floor)
  then show ?thesis using fq by (simp only: scan_percent_before_def f1 f2 trunc_nonneg)
qed


lemma scan_loop_trace:
  assumes "\<And>a b c. cb a b c = Returns"
  shows "scan_loop walk aborts (Some cb) tot targets d rs tr
         = (False, rs @ map walk (take (processed aborts d (length targets)) targets),
            tr @ concat (map (\<lambda>(j, t). [ScanProgress (int j) tot (scan_percent_before (int j + 1) tot),
                                         ScanWalk (st_name t),
                                         ScanProgress (int j + 1) tot (scan_percent_after (int j + 1) tot)])
                           (enumerate d (take (processed aborts d (length targets)) targets))))"
proof (induction targets arbitrary: d rs tr)
  case Nil
  then show ?case by simp
next
  case (Cons t ts)
  show ?case
  proof (cases "aborts d")
    case True
    then show ?thesis by simp
  next
    case False
    from Cons.IH [of "Suc d" "rs @ [walk t]"] False assms
    show ?thesis by (simp add: Let_def)
  qed
qed

lemma scan_thread_trace:
  assumes "\<And>a b c. cb a b c = Returns"
  shows "snd (scan_thread walk aborts (Some cb) (Some ccb) s)
         = concat (map (\<lambda>(j, t).
              [ScanProgress (int j) (int (length (filter st_enabled (sc_targets s))))
                 (scan_percent_before (int j + 1) (int (length (filter st_enabled (sc_targets s))))),
               ScanWalk (st_name t),
               ScanProgress (int j + 1) (int (length (filter st_enabled (sc_targets s))))
                 (scan_percent_after (int j + 1) (int (length (filter st_enabled (sc_targets s)))))])
              (enumerate 0
                 (take (processed aborts 0 (length (filter st_enabled (sc_targets s))))
                    (filter st_enabled (sc_targets s)))))
           @ [ScanComplete
                (map walk (take (processed aborts 0 (length (filter st_enabled (sc_targets s))))
                             (filter st_enabled (sc_targets s))))]"
  using scan_loop_trace [of cb walk aborts
      "int (length (filter st_enabled (sc_targets s)))" "filter st_enabled (sc_targets s)" 0 "[]" "[]"]
    assms
  by (simp add: scan_thread_def Let_def)

lemma processed_all: "(\<And>j. \<not> aborts j) \<Longrightarrow> processed aborts i n = n"
  by (induction n arbitrary: i) auto

text \<open>
  C5 (as amended). During a scan over \<open>n\<close> enabled targets whose progress callback returns,
  the progress callback is called exactly once before and once after the walk of each
  target that is walked, in list order: every enabled target in a run that is not aborted,
  the targets before the first read of the abort flag that finds it set otherwise. Before
  the walk of the \<open>k\<close>-th target it reports the index \<open>k - 1\<close> with the percentage
  \<open>int((k - 0.5) * 100 / n)\<close>, after the walk the index \<open>k\<close> with \<open>int(k * 100 / n)\<close>, both
  computed in double precision and truncated: for \<open>n < 2^45\<close> they are
  \<open>floor((100 * k - 50) / n)\<close> (the middle of that target's share) and
  \<open>floor(100 * k / n)\<close>. The percentage is truncated, not rounded, and only computed per
  target.
\<close>

theorem scan_progress_contract:
  "((\<forall>a b c. cb a b c = Returns) \<longrightarrow>
      snd (scan_thread walk aborts (Some cb) (Some ccb) s)
        = concat (map (\<lambda>(j, t).
             [ScanProgress (int j) (int (length (filter st_enabled (sc_targets s))))
                (scan_percent_before (int j + 1) (int (length (filter st_enabled (sc_targets s))))),
              ScanWalk (st_name t),
              ScanProgress (int j + 1) (int (length (filter st_enabled (sc_targets s))))
                (scan_percent_after (int j + 1) (int (length (filter st_enabled (sc_targets s)))))])
             (enumerate 0
                (take (processed aborts 0 (length (filter st_enabled (sc_targets s))))
                   (filter st_enabled (sc_targets s)))))
          @ [ScanComplete
               (map walk (take (processed aborts 0 (length (filter st_enabled (sc_targets s))))
                            (filter st_enabled (sc_targets s))))]) \<and>
   ((\<forall>j. \<not> aborts j) \<longrightarrow>
      processed aborts 0 (length (filter st_enabled (sc_targets s)))
        = length (filter st_enabled (sc_targets s))) \<and>
   (0 < k \<and> k \<le> n \<and> n < 2 ^ 45 \<longrightarrow>
      scan_percent_before k n = (100 * k - 50) div n \<and>
      scan_percent_after k n = (100 * k) div n)"
proof (intro conjI impI)
  assume "\<forall>a b c. cb a b c = Returns"
  then have a: "\<And>a b c. cb a b c = Returns" by blast
  show "snd (scan_thread walk aborts (Some cb) (Some ccb) s)
        = concat (map (\<lambda>(j, t).
             [ScanProgress (int j) (int (length (filter st_enabled (sc_targets s))))
                (scan_percent_before (int j + 1) (int (length (filter st_enabled (sc_targets s))))),
              ScanWalk (st_name t),
              ScanProgress (int j + 1) (int (length (filter st_enabled (sc_targets s))))
                (scan_percent_after (int j + 1) (int (length (filter st_enabled (sc_targets s)))))])
             (enumerate 0
                (take (processed aborts 0 (length (filter st_enabled (sc_targets s))))
                   (filter st_enabled (sc_targets s)))))
          @ [ScanComplete
               (map walk (take (processed aborts 0 (length (filter st_enabled (sc_targets s))))
                            (filter st_enabled (sc_targets s))))]"
    using a by (rule scan_thread_trace)
next
  assume "\<forall>j. \<not> aborts j"
  then show "processed aborts 0 (length (filter st_enabled (sc_targets s)))
        = length (filter st_enabled (sc_targets s))"
    by (intro processed_all) simp
next
  assume h: "0 < k \<and> k \<le> n \<and> n < 2 ^ 45"
  then show "scan_percent_before k n = (100 * k - 50) div n"
    by (intro scan_percent_before_eq) simp_all
  from h show "scan_percent_after k n = (100 * k) div n"
    by (intro scan_percent_after_eq) simp_all
qed

text \<open>
  A scan over two enabled targets that is aborted before the second: the walk of the
  first is bracketed by the two calls, with 25 and 50 percent.
\<close>

theorem scan_progress_contract_witness:
  "(0::int) < 1 \<and> (1::int) \<le> 2 \<and> (2::int) < 2 ^ 45 \<and>
   snd (scan_thread st_name (\<lambda>i. i = 1) (Some (\<lambda>a b c. Returns)) (Some (\<lambda>rs. Returns))
       \<lparr>sc_targets =
          [\<lparr>st_name = ''temp'', st_path = ''/tmp'', st_description = ''/tmp'', st_is_system = False,
            st_enabled = True, st_patterns = [], st_exclude_patterns = [], st_min_size = 0,
            st_max_size = None, st_min_age = None, st_recursive = True\<rparr>,
           \<lparr>st_name = ''off'', st_path = ''/off'', st_description = ''/off'', st_is_system = False,
            st_enabled = False, st_patterns = [], st_exclude_patterns = [], st_min_size = 0,
            st_max_size = None, st_min_age = None, st_recursive = True\<rparr>,
           \<lparr>st_name = ''cache'', st_path = ''/var/cache'', st_description = ''/var/cache'',
            st_is_system = False,
            st_enabled = True, st_patterns = [], st_exclude_patterns = [], st_min_size = 0,
            st_max_size = None, st_min_age = None, st_recursive = True\<rparr>],
        sc_results = [], sc_running = True, sc_abort_flag = False\<rparr>)
   = [ScanProgress 0 2 25, ScanWalk ''temp'', ScanProgress 1 2 50, ScanComplete [''temp'']]"
  using scan_progress_contract
    [where aborts = "\<lambda>i. i = 1" and cb = "\<lambda>a b c. Returns" and ccb = "\<lambda>rs. Returns"
       and walk = st_name and k = 1 and n = 2
       and s = "\<lparr>sc_targets =
          [\<lparr>st_name = ''temp'', st_path = ''/tmp'', st_description = ''/tmp'', st_is_system = False,
            st_enabled = True, st_patterns = [], st_exclude_patterns = [], st_min_size = 0,
            st_max_size = None, st_min_age = None, st_recursive = True\<rparr>,
           \<lparr>st_name = ''off'', st_path = ''/off'', st_description = ''/off'', st_is_system = False,
            st_enabled = False, st_patterns = [], st_exclude_patterns = [], st_min_size = 0,
            st_max_size = None, st_min_age = None, st_recursive = True\<rparr>,
           \<lparr>st_name = ''cache'', st_path = ''/var/cache'', st_description = ''/var/cache'',
            st_is_system = False,
            st_enabled = True, st_patterns = [], st_exclude_patterns = [], st_min_size = 0,
            st_max_size = None, st_min_age = None, st_recursive = True\<rparr>],
        sc_results = [], sc_running = True, sc_abort_flag = False\<rparr>"]
  by simp


text \<open>
  The claim as the specification states it fails: with one enabled target the call before
  the walk reports the index 0 with 50 percent, not \<open>round(0 * 100 / 1) = 0\<close>; and after
  the second of three targets the percentage is 66, not \<open>round(2 * 100 / 3) = 67\<close>.
\<close>

theorem scan_progress_counterexample:
  "hd (snd (scan_thread st_name (\<lambda>i. False) (Some (\<lambda>a b c. Returns)) (Some (\<lambda>rs. Returns))
       \<lparr>sc_targets = [\<lparr>st_name = ''temp'', st_path = ''/tmp'', st_description = ''/tmp'', st_is_system = False,
          st_enabled = True, st_patterns = [], st_exclude_patterns = [], st_min_size = 0,
          st_max_size = None, st_min_age = None, st_recursive = True\<rparr>],
        sc_results = [], sc_running = True, sc_abort_flag = False\<rparr>))
   = ScanProgress 0 1 50 \<and>
   py_round (0 * 100 / 1) = 0 \<and> (50::int) \<noteq> 0 \<and>
   scan_percent_after 2 3 = 66 \<and> py_round (2 * 100 / 3) = 67"
proof -
  have a: "scan_percent_before 1 1 = 50"
    using scan_percent_before_eq [of 1 1] by simp
  have b: "scan_percent_after 1 1 = 100"
    using scan_percent_after_eq [of 1 1] by simp
  have c: "scan_percent_after 2 3 = 66"
    using scan_percent_after_eq [of 2 3] by simp
  show ?thesis
    by (simp add: scan_thread_def Let_def a b c py_round_def round_half_even_def
        floor_numeral_divide)
qed

text \<open>
  C2 fails on the code for \<open>scan\<close> and \<open>clean\<close> (the analyzer alone wraps its task in
  \<open>try ... finally\<close>): when the progress callback raises, the loop of \<open>_scan_thread\<close>, or of
  \<open>_clean_thread\<close>, is left by the exception, the completion callback is never called and
  \<open>running\<close> stays set, so that every later \<open>scan\<close>, or \<open>clean\<close>, is refused.
\<close>

theorem scan_callback_raises_no_completion:
  "scan_thread st_name (\<lambda>i. False) (Some (\<lambda>a b c. Raises)) (Some (\<lambda>rs. Returns))
       \<lparr>sc_targets = [\<lparr>st_name = ''temp'', st_path = ''/tmp'', st_description = ''/tmp'', st_is_system = False,
          st_enabled = True, st_patterns = [], st_exclude_patterns = [], st_min_size = 0,
          st_max_size = None, st_min_age = None, st_recursive = True\<rparr>],
        sc_results = [], sc_running = True, sc_abort_flag = False\<rparr>
   = (\<lparr>sc_targets = [\<lparr>st_name = ''temp'', st_path = ''/tmp'', st_description = ''/tmp'', st_is_system = False,
          st_enabled = True, st_patterns = [], st_exclude_patterns = [], st_min_size = 0,
          st_max_size = None, st_min_age = None, st_recursive = True\<rparr>],
        sc_results = [], sc_running = True, sc_abort_flag = False\<rparr>, [ScanProgress 0 1 50]) \<and>
   fst (scan \<lparr>sc_targets = [\<lparr>st_name = ''temp'', st_path = ''/tmp'', st_description = ''/tmp'', st_is_system = False,
          st_enabled = True, st_patterns = [], st_exclude_patterns = [], st_min_size = 0,
          st_max_size = None, st_min_age = None, st_recursive = True\<rparr>],
        sc_results = [], sc_running = True, sc_abort_flag = False\<rparr>) = PyBool False"
proof -
  have a: "scan_percent_before 1 1 = 50"
    using scan_percent_before_eq [of 1 1] by simp
  show ?thesis by (simp add: scan_thread_def Let_def a scan_def)
qed

section \<open>Properties of the analyzer\<close>

lemma depth_ok_iff:
  "depth_ok m d x =
     ((d \<le> m \<or> (di_children x = [] \<and> (di_size x = 0 \<or> \<not> di_is_dir x))) \<and>
      list_all (depth_ok m (d + 1)) (di_children x))"
  by (cases x) simp

lemma depth_ok_add_child:
  "list_all (depth_ok m (d + 1)) (di_children p) \<Longrightarrow> depth_ok m (d + 1) c \<Longrightarrow>
   list_all (depth_ok m (d + 1)) (di_children (add_child p c))"
  by (simp add: add_child_def)

lemma depth_ok_new_file: "depth_ok m d (new_DiskItem path name False sz)"
  by (simp add: new_DiskItem_def)

lemma depth_ok_new_dir: "depth_ok m d (new_DiskItem path name True 0)"
  by (simp add: new_DiskItem_def)

lemma walk_depth_ok:
  "(depth_ok m current_depth parent_item \<longrightarrow>
      depth_ok m current_depth
        (fst (analyze_directory aborts pcb (Some m) directory access entries parent_item
                current_depth st)))"
  "(list_all (depth_ok m (current_depth + 1)) (di_children parent_item) \<longrightarrow>
      list_all (depth_ok m (current_depth + 1))
        (di_children (fst (snd (analyze_items aborts pcb (Some m) directory entries parent_item
                current_depth dir_size st)))))"
proof (induction aborts pcb "Some m" directory access entries parent_item current_depth st
       and aborts pcb "Some m" directory entries parent_item current_depth dir_size st
       rule: analyze_directory_analyze_items.induct)
  case (1 aborts pcb directory access entries parent_item current_depth st)
  show ?case
  proof (cases "aborts (ws_polls st) \<or> current_depth > m \<or> access \<noteq> Readable")
    case True
    then show ?thesis by (cases access) (auto simp: Let_def)
  next
    case False
    then have na: "\<not> aborts (ws_polls st)" and dm: "\<not> m < current_depth"
      and acc: "access = Readable" by auto
    define st1 where "st1 = st\<lparr>ws_polls := Suc (ws_polls st)\<rparr>"
    obtain fin p' ds st2 where
      r: "analyze_items aborts pcb (Some m) directory entries parent_item current_depth 0 st1
            = (fin, p', ds, st2)"
      by (cases "analyze_items aborts pcb (Some m) directory entries parent_item current_depth 0 st1")
         auto
    have ih: "list_all (depth_ok m (current_depth + 1)) (di_children parent_item) \<longrightarrow>
              list_all (depth_ok m (current_depth + 1)) (di_children p')"
      using "1.hyps" [OF st1_def na _ acc] dm r by simp
    show ?thesis
      using na dm acc r ih
      by (auto simp: Let_def st1_def [symmetric] depth_ok_iff [of m current_depth] set_size_def)
  qed
next
  case (2 aborts pcb directory parent_item current_depth dir_size st)
  then show ?case by simp
next
  case (3 aborts pcb directory name file_size items parent_item current_depth dir_size st)
  then show ?case
    by (auto simp: Let_def depth_ok_new_file add_child_def)
next
  case (4 aborts pcb directory name access sub items parent_item current_depth dir_size st)
  show ?case
  proof (cases "aborts (ws_polls st)")
    case True
    then show ?thesis by (simp add: Let_def)
  next
    case False
    define st1 where "st1 = st\<lparr>ws_polls := Suc (ws_polls st)\<rparr>"
    obtain dir_item st2 where
      r: "analyze_directory aborts pcb (Some m) (join_path directory name) access sub
            (new_DiskItem (join_path directory name) (Some name) True 0)
            (current_depth + 1) st1 = (dir_item, st2)"
      by (cases "analyze_directory aborts pcb (Some m) (join_path directory name) access sub
            (new_DiskItem (join_path directory name) (Some name) True 0)
            (current_depth + 1) st1") auto
    have d1: "depth_ok m (current_depth + 1) dir_item"
      using "4.hyps"(1) [OF st1_def False] r depth_ok_new_dir by simp
    have ih2: "list_all (depth_ok m (current_depth + 1)) (di_children (add_child parent_item dir_item)) \<longrightarrow>
               list_all (depth_ok m (current_depth + 1))
                 (di_children (fst (snd (analyze_items aborts pcb (Some m) directory items
                     (add_child parent_item dir_item) current_depth
                     (dir_size + di_size dir_item) st2))))"
      using "4.hyps"(2) [OF st1_def False r [symmetric]] by simp
    show ?thesis
      using False r d1 ih2
      by (auto simp: Let_def st1_def [symmetric] add_child_def)
  qed
next
  case (5 aborts pcb directory name items parent_item current_depth dir_size st)
  then show ?case by (auto simp: Let_def)
next
  case (6 aborts pcb directory name perm items parent_item current_depth dir_size st)
  then show ?case by (auto simp: Let_def)
qed


lemma depth_ok_items_at:
  "depth_ok m d item \<Longrightarrow> x \<in> set (items_at k item) \<Longrightarrow> m < d + int k \<Longrightarrow>
   di_children x = [] \<and> (di_size x = 0 \<or> \<not> di_is_dir x)"
proof (induction k arbitrary: item d)
  case 0
  then show ?case by (auto simp: depth_ok_iff [of m d])
next
  case (Suc k)
  from Suc.prems(2) obtain c where c: "c \<in> set (di_children item)" "x \<in> set (items_at k c)"
    by auto
  have "depth_ok m (d + 1) c"
    using Suc.prems(1) c(1) by (auto simp: depth_ok_iff [of m d] list_all_iff)
  moreover have "m < (d + 1) + int k" using Suc.prems(3) by simp
  ultimately show ?case using c(2) Suc.IH by blast
qed

lemma analyze_thread_root:
  "\<exists>res r. an_result (fst (analyze_thread aborts a path (Some (FsDir n access entries)) (Some m)))
             = Some res \<and> root_item res = Some r \<and> depth_ok m 0 r"
proof -
  obtain r st where
    w: "analyze_directory aborts (an_progress_callback a) (Some m) path access entries
          (new_DiskItem path None True 0) 0
          \<lparr>ws_result = new_AnalyzeResult, ws_polls = 0, ws_trace = []\<rparr> = (r, st)"
    by (cases "analyze_directory aborts (an_progress_callback a) (Some m) path access entries
          (new_DiskItem path None True 0) 0
          \<lparr>ws_result = new_AnalyzeResult, ws_polls = 0, ws_trace = []\<rparr>") auto
  have "depth_ok m 0 (new_DiskItem path None True 0)" by (rule depth_ok_new_dir)
  then have "depth_ok m 0 r" using walk_depth_ok(1) [of m 0 "new_DiskItem path None True 0"
      aborts "an_progress_callback a" path access entries
      "\<lparr>ws_result = new_AnalyzeResult, ws_polls = 0, ws_trace = []\<rparr>"] w
    by (simp del: analyze_directory.simps)
  then show ?thesis using w by (simp add: analyze_thread_def Let_def del: analyze_directory.simps)
qed

text \<open>
  C1 (as amended). In an analyze run with the depth bound \<open>m\<close> no item lies more than one
  level beyond the bound: every item at a depth greater than \<open>m\<close> (the root is at depth 0)
  has no children, and a directory there has the size 0; it is added to its parent but
  never listed. In \<open>root/sub1/sub2/file.txt\<close> analyzed with the bound 1, \<open>file.txt\<close> is
  no item of the tree, \<open>sub2\<close> is an item of \<open>sub1\<close> without children and of size 0, and
  \<open>sub1\<close> has the size 0.
\<close>

theorem analyze_depth_bound:
  "(\<exists>res r. an_result (fst (analyze_thread aborts a path (Some (FsDir n access entries))
                             (Some m))) = Some res \<and>
            root_item res = Some r \<and>
            (\<forall>k x. x \<in> set (items_at k r) \<and> m < int k \<longrightarrow>
                   di_children x = [] \<and> (di_size x = 0 \<or> \<not> di_is_dir x))) \<and>
   map_option root_item
     (an_result (fst (analyze_thread (\<lambda>k. False) a ''/root''
        (Some (FsDir ''root'' Readable
            [FsDir ''sub1'' Readable [FsDir ''sub2'' Readable [FsFile ''file.txt'' sz]]])) (Some 1))))
   = Some (Some (DiskItem ''/root'' ''root'' True 0
                [DiskItem ''/root/sub1'' ''sub1'' True 0
                   [DiskItem ''/root/sub1/sub2'' ''sub2'' True 0 []]]))"
proof
  from analyze_thread_root [of aborts a path n access entries m]
  obtain res r where
    r: "an_result (fst (analyze_thread aborts a path (Some (FsDir n access entries)) (Some m)))
          = Some res" "root_item res = Some r" "depth_ok m 0 r"
    by blast
  have "\<forall>k x. x \<in> set (items_at k r) \<and> m < int k \<longrightarrow>
          di_children x = [] \<and> (di_size x = 0 \<or> \<not> di_is_dir x)"
    using depth_ok_items_at [OF r(3)] by auto
  then show "\<exists>res r. an_result (fst (analyze_thread aborts a path (Some (FsDir n access entries))
                             (Some m))) = Some res \<and>
            root_item res = Some r \<and>
            (\<forall>k x. x \<in> set (items_at k r) \<and> m < int k \<longrightarrow>
                   di_children x = [] \<and> (di_size x = 0 \<or> \<not> di_is_dir x))"
    using r(1,2) by blast
next
  show "map_option root_item
     (an_result (fst (analyze_thread (\<lambda>k. False) a ''/root''
        (Some (FsDir ''root'' Readable
            [FsDir ''sub1'' Readable [FsDir ''sub2'' Readable [FsFile ''file.txt'' sz]]])) (Some 1))))
   = Some (Some (DiskItem ''/root'' ''root'' True 0
                [DiskItem ''/root/sub1'' ''sub1'' True 0
                   [DiskItem ''/root/sub1/sub2'' ''sub2'' True 0 []]]))"
    by (simp add: analyze_thread_def new_DiskItem_def join_path_def add_child_def set_size_def basename_def rfind_def Let_def)
qed

theorem analyze_depth_bound_witness:
  "(1::int) < int 2 \<and>
   map_option root_item
     (an_result (fst (analyze_thread (\<lambda>k. False) new_Analyzer ''/root''
        (Some (FsDir ''root'' Readable
            [FsDir ''sub1'' Readable [FsDir ''sub2'' Readable [FsFile ''file.txt'' 42]]])) (Some 1))))
   = Some (Some (DiskItem ''/root'' ''root'' True 0
                [DiskItem ''/root/sub1'' ''sub1'' True 0
                   [DiskItem ''/root/sub1/sub2'' ''sub2'' True 0 []]])) \<and>
   items_at 2 (DiskItem ''/root'' ''root'' True 0
                [DiskItem ''/root/sub1'' ''sub1'' True 0
                   [DiskItem ''/root/sub1/sub2'' ''sub2'' True 0 []]])
   = [DiskItem ''/root/sub1/sub2'' ''sub2'' True 0 []] \<and>
   items_at 3 (DiskItem ''/root'' ''root'' True 0
                [DiskItem ''/root/sub1'' ''sub1'' True 0
                   [DiskItem ''/root/sub1/sub2'' ''sub2'' True 0 []]]) = []"
  using analyze_depth_bound [where a = new_Analyzer and sz = 42]
  by (simp add: numeral_2_eq_2 numeral_3_eq_3)

text \<open>
  The claim as the specification states it fails: in that run \<open>sub2\<close>, which lies beyond
  the bound, is added as a child of \<open>sub1\<close>.
\<close>

theorem analyze_depth_counterexample:
  "map_option (map_option (items_at 2) \<circ> root_item)
     (an_result (fst (analyze_thread (\<lambda>k. False) new_Analyzer ''/root''
        (Some (FsDir ''root'' Readable
            [FsDir ''sub1'' Readable [FsDir ''sub2'' Readable [FsFile ''file.txt'' 42]]])) (Some 1))))
   = Some (Some [DiskItem ''/root/sub1/sub2'' ''sub2'' True 0 []])"
  by (simp add: analyze_thread_def new_DiskItem_def join_path_def add_child_def set_size_def basename_def rfind_def Let_def numeral_2_eq_2)

text \<open>
  C4 fails on the code for \<open>analyze_disk\<close>: it returns \<open>None\<close> whether it starts a thread or
  refuses, and as \<open>is_analyzing\<close> is set by the thread and not by the call, a second call
  made before the first thread runs starts a second thread. \<open>scan\<close> and \<open>clean\<close> return
  \<open>True\<close> and then \<open>False\<close>.
\<close>

theorem analyze_disk_returns_none:
  "fst (analyze_disk (\<lambda>p. p) new_Analyzer ''/data'' None None None) = PyNone \<and>
   analyze_disk (\<lambda>p. p) (snd (analyze_disk (\<lambda>p. p) new_Analyzer ''/data'' None None None))
     ''/data'' None None None
   = (PyNone, new_Analyzer\<lparr>an_threads := [(''/data'', None), (''/data'', None)]\<rparr>) \<and>
   fst (analyze_disk (\<lambda>p. p) (new_Analyzer\<lparr>an_is_analyzing := True\<rparr>) ''/data'' None None None)
     = PyNone \<and>
   fst (scan \<lparr>sc_targets = [], sc_results = ([] :: string list), sc_running = False,
              sc_abort_flag = False\<rparr>) = PyBool True \<and>
   fst (scan (fst (snd (scan \<lparr>sc_targets = [], sc_results = ([] :: string list),
                              sc_running = False, sc_abort_flag = False\<rparr>)))) = PyBool False \<and>
   fst (clean \<lparr>cl_method = RECYCLE_BIN, cl_running = False, cl_abort_flag = False\<rparr> [] None)
     = PyBool True \<and>
   fst (clean (fst (snd (clean \<lparr>cl_method = RECYCLE_BIN, cl_running = False,
                                 cl_abort_flag = False\<rparr> [] None))) [] None) = PyBool False"
  by (simp add: analyze_disk_def new_Analyzer_def scan_def clean_def)

section \<open>Properties of the size utilities\<close>

lemma fl_2_50: "fl 1125899906842624 = 1125899906842624"
  using fl_of_int [of 1125899906842624] by simp
lemma fl_2_40: "fl 1099511627776 = 1099511627776"
  using fl_of_int [of 1099511627776] by simp
lemma fl_2_30: "fl 1073741824 = 1073741824"
  using fl_of_int [of 1073741824] by simp
lemma fl_2_20: "fl 1048576 = 1048576"
  using fl_of_int [of 1048576] by simp
lemma fl_2_10: "fl 1024 = 1024"
  using fl_of_int [of 1024] by simp
lemma fl_1536: "fl 1536 = 1536"
  using fl_of_int [of 1536] by simp
lemma fl_3_2: "fl (3 / 2) = 3 / 2"
  using fl_half_int [of 3] by simp

lemma scale_size_pb: "scale_size 1125899906842624 0 = (1, 5)"
  by (simp add: scale_size.simps size_units_def fl_2_40 fl_2_30 fl_2_20 fl_2_10 fl_1)

lemma scale_size_kb: "scale_size 1536 0 = (3 / 2, 1)"
  by (simp add: scale_size.simps size_units_def fl_3_2)

lemma char_of_digit:
  "char_of (48::nat) = CHR ''0''" "char_of (49::nat) = CHR ''1''" "char_of (50::nat) = CHR ''2''"
  "char_of (51::nat) = CHR ''3''" "char_of (52::nat) = CHR ''4''" "char_of (53::nat) = CHR ''5''"
  "char_of (54::nat) = CHR ''6''" "char_of (55::nat) = CHR ''7''" "char_of (56::nat) = CHR ''8''"
  "char_of (57::nat) = CHR ''9''"
  by code_simp+

lemma format_fixed_1: "format_fixed 2 1 = ''1.00''"
  by (simp add: format_fixed_def round_half_even_def str_int_def pad_zeros_def Let_def char_of_digit)

lemma format_fixed_3_2: "format_fixed 2 (3 / 2) = ''1.50''"
  by (simp add: format_fixed_def round_half_even_def str_int_def pad_zeros_def Let_def char_of_digit)

lemma format_pb: "bytes_to_human_readable (2 ^ 50) 2 = Inr ''1.00 PB PB''"
  by (simp add: bytes_to_human_readable_def float_of_int_def overflows_def fl_2_50 scale_size_pb format_fixed_1
      size_units_def rstrip_chars_def)

lemma format_kb: "bytes_to_human_readable 1536 2 = Inr ''1.50 KB KB''"
  by (simp add: bytes_to_human_readable_def float_of_int_def overflows_def fl_1536 scale_size_kb format_fixed_3_2
      size_units_def rstrip_chars_def)

lemma float_of_decimal_1: "float_of_decimal ''1.00'' = Some (FloatVal 1)"
  by (simp add: float_of_decimal_def is_digit_def digits_value_def to_float_def overflows_def fl_1 Let_def)

lemma float_of_decimal_3_2: "float_of_decimal ''1.50'' = Some (FloatVal (3 / 2))"
  by (simp add: float_of_decimal_def is_digit_def digits_value_def to_float_def overflows_def fl_3_2 Let_def)

lemma parse_pb: "human_readable_to_bytes (\<lambda>s. None) ''1.00 PB PB'' = Inr 1"
  by (simp add: human_readable_to_bytes_def strip_def upper_def upper_char_def is_space_def
      is_num_char_def is_digit_def is_alpha_def float_of_decimal_1 size_unit_table_def trunc_def Let_def)

lemma parse_kb: "human_readable_to_bytes (\<lambda>s. None) ''1.50 KB KB'' = Inr 1536"
  by (simp add: human_readable_to_bytes_def strip_def upper_def upper_char_def is_space_def
      is_num_char_def is_digit_def is_alpha_def float_of_decimal_3_2 size_unit_table_def trunc_def Let_def
      to_float_def overflows_def fl_2_10 fl_1536)

text \<open>
  C3 fails on the code: \<open>bytes_to_human_readable\<close> knows the unit \<open>PB\<close>, the table of
  \<open>human_readable_to_bytes\<close> ends at \<open>TB\<close> and an unknown unit is read as bytes. A size of
  \<open>2^50\<close> bytes is written \<open>1.00 PB PB\<close> (the unit twice, as for every size of 1024 bytes
  or more) and read back as 1 byte. Below \<open>PB\<close> the round trip works: 1536 bytes are
  written \<open>1.50 KB KB\<close> and read back as 1536.
\<close>

theorem size_round_trip_fails_at_pb:
  "bytes_to_human_readable (2 ^ 50) 2 = Inr ''1.00 PB PB'' \<and>
   human_readable_to_bytes (\<lambda>s. None) ''1.00 PB PB'' = Inr 1 \<and>
   bytes_to_human_readable 1536 2 = Inr ''1.50 KB KB'' \<and>
   human_readable_to_bytes (\<lambda>s. None) ''1.50 KB KB'' = Inr 1536"
  by (intro conjI) (rule format_pb parse_pb format_kb parse_kb)+

end
